theory Spec2Isabelle
  imports Complex_Main "HOL-Library.Sublist"
begin

section \<open>Strings\<close>

text \<open>
  A source string is a sequence of 16-bit code units.  The model has the strings whose code
  units are all below 256: a \<open>char\<close> is one such code unit (the ASCII range and the
  Latin-1 supplement), and \<open>string\<close> is the type of these strings.  On this range the
  character classes and the case conversion below are the ones of the source language;
  strings with a code unit from 256 on are outside the model.  \<open>toLowerCase\<close> maps A-Z
  to a-z and the capital letters of the Latin-1 supplement (U+00C0 to U+00DE without the
  multiplication sign U+00D7) to their small letters, and leaves every other character
  alone; \<open>str_includes\<close> is \<open>String.prototype.includes\<close>: the second string occurs as a
  contiguous block of the first.
\<close>

definition upperLetters :: string where
  "upperLetters =
     ''ABCDEFGHIJKLMNOPQRSTUVWXYZ'' @
     [CHR 0xC0, CHR 0xC1, CHR 0xC2, CHR 0xC3, CHR 0xC4, CHR 0xC5, CHR 0xC6, CHR 0xC7,
      CHR 0xC8, CHR 0xC9, CHR 0xCA, CHR 0xCB, CHR 0xCC, CHR 0xCD, CHR 0xCE, CHR 0xCF,
      CHR 0xD0, CHR 0xD1, CHR 0xD2, CHR 0xD3, CHR 0xD4, CHR 0xD5, CHR 0xD6,
      CHR 0xD8, CHR 0xD9, CHR 0xDA, CHR 0xDB, CHR 0xDC, CHR 0xDD, CHR 0xDE]"

definition lowerLetters :: string where
  "lowerLetters =
     ''abcdefghijklmnopqrstuvwxyz'' @
     [CHR 0xE0, CHR 0xE1, CHR 0xE2, CHR 0xE3, CHR 0xE4, CHR 0xE5, CHR 0xE6, CHR 0xE7,
      CHR 0xE8, CHR 0xE9, CHR 0xEA, CHR 0xEB, CHR 0xEC, CHR 0xED, CHR 0xEE, CHR 0xEF,
      CHR 0xF0, CHR 0xF1, CHR 0xF2, CHR 0xF3, CHR 0xF4, CHR 0xF5, CHR 0xF6,
      CHR 0xF8, CHR 0xF9, CHR 0xFA, CHR 0xFB, CHR 0xFC, CHR 0xFD, CHR 0xFE]"

definition lowerChar :: "char \<Rightarrow> char" where
  "lowerChar c =
     (case map_of (zip upperLetters lowerLetters) c of
        Some d \<Rightarrow> d
      | None \<Rightarrow> c)"

definition toLowerCase :: "string \<Rightarrow> string" where
  "toLowerCase s = map lowerChar s"

fun str_includes :: "string \<Rightarrow> string \<Rightarrow> bool" where
  "str_includes [] t = (t = [])"
| "str_includes (c # cs) t = (prefix t (c # cs) \<or> str_includes cs t)"

fun startsWith :: "string \<Rightarrow> string \<Rightarrow> bool" where
  "startsWith s t = prefix t s"

section \<open>Numbers\<close>

text \<open>
  A source number is a finite value, modelled as a real, or \<open>NaN\<close>.  The only division
  of the program is \<open>matches / terms.length\<close>, whose numerator \<open>matches\<close> is at most the
  denominator, so the quotient is finite or is \<open>0 / 0 = NaN\<close>; no infinity arises.
  Arithmetic, \<open>Math.max\<close> and \<open>Math.min\<close> propagate \<open>NaN\<close>, and every comparison
  with \<open>NaN\<close> is false.
\<close>

datatype jsnum = Num real | NaN

fun jlift :: "(real \<Rightarrow> real \<Rightarrow> real) \<Rightarrow> jsnum \<Rightarrow> jsnum \<Rightarrow> jsnum" where
  "jlift f (Num x) (Num y) = Num (f x y)"
| "jlift f _ _ = NaN"

definition jadd :: "jsnum \<Rightarrow> jsnum \<Rightarrow> jsnum" where "jadd = jlift (+)"
definition jsub :: "jsnum \<Rightarrow> jsnum \<Rightarrow> jsnum" where "jsub = jlift (-)"
definition jmul :: "jsnum \<Rightarrow> jsnum \<Rightarrow> jsnum" where "jmul = jlift (*)"
definition mathMax :: "jsnum \<Rightarrow> jsnum \<Rightarrow> jsnum" where "mathMax = jlift max"
definition mathMin :: "jsnum \<Rightarrow> jsnum \<Rightarrow> jsnum" where "mathMin = jlift min"

fun jge :: "jsnum \<Rightarrow> jsnum \<Rightarrow> bool" where
  "jge (Num x) (Num y) = (y \<le> x)"
| "jge _ _ = False"

fun jlt :: "jsnum \<Rightarrow> jsnum \<Rightarrow> bool" where
  "jlt (Num x) (Num y) = (x < y)"
| "jlt _ _ = False"

text \<open>\<open>matches / terms.length\<close> for two array-derived counts.\<close>

definition jdivCount :: "nat \<Rightarrow> nat \<Rightarrow> jsnum" where
  "jdivCount m n = (if n = 0 then NaN else Num (real m / real n))"

section \<open>Term scoring and article rating (pubmed-agent.ts)\<close>

record PubMedArticle =
  article_id :: string
  title :: string
  abstract :: string
  authors :: "string list"
  publicationDate :: string
  journal :: string
  doi :: "string option"
  fullTextUrl :: "string option"

record ArticleContent =
  content_id :: string
  fullText :: string

record ArticleRating =
  rating_id :: string
  score :: jsnum
  novelty :: jsnum
  impact :: jsnum
  methodology :: jsnum
  relevance :: jsnum
  tweetable :: bool

text \<open>
  The loop of \<open>scoreTermsPresence\<close>: one increment of \<open>matches\<close> for every term whose
  lower-cased form occurs in the text.
\<close>

primrec countMatches :: "string \<Rightarrow> string list \<Rightarrow> nat" where
  "countMatches str [] = 0"
| "countMatches str (t # ts) =
     (if str_includes str (toLowerCase t) then 1 else 0) + countMatches str ts"

definition scoreTermsPresence :: "string \<Rightarrow> string list \<Rightarrow> jsnum \<Rightarrow> jsnum" where
  "scoreTermsPresence str terms maxScore =
     jmul (jdivCount (countMatches str terms) (length terms)) maxScore"

definition avoidTopics :: "string list" where
  "avoidTopics =
     [''political'', ''controversial'', ''abortion'', ''gun'', ''religion'',
      ''alternative medicine'', ''unproven therapy'', ''unethical'', ''retracted'',
      ''disputed'', ''lawsuit'']"

definition minScoreToTweet :: jsnum where
  "minScoreToTweet = Num 7.5"

definition noveltyTerms :: "string list" where
  "noveltyTerms =
     [''first time'', ''novel'', ''breakthrough'', ''pioneering'', ''discovered'',
      ''new approach'', ''innovative'', ''groundbreaking'', ''first-in-human'',
      ''paradigm shift'', ''revolutionize'']"

definition impactTerms :: "string list" where
  "impactTerms =
     [''significant'', ''substantial'', ''major'', ''important'', ''crucial'',
      ''life-saving'', ''effective'', ''efficacy'', ''survival'', ''mortality'',
      ''quality of life'', ''large cohort'', ''multi-center'', ''phase 3'']"

definition methodologyTerms :: "string list" where
  "methodologyTerms =
     [''randomized'', ''double-blind'', ''placebo-controlled'', ''meta-analysis'',
      ''systematic review'', ''large sample'', ''longitudinal'', ''prospective'',
      ''controlled trial'', ''robust'', ''validated'', ''statistical significance'']"

definition relevanceTerms :: "string list" where
  "relevanceTerms =
     [''public health'', ''common disease'', ''prevalent'', ''population'',
      ''widespread'', ''epidemic'', ''pandemic'', ''burden'', ''incidence'',
      ''morbidity'', ''mortality'', ''preventable'', ''treatment'', ''therapy'']"

definition redFlagTerms :: "string list" where
  "redFlagTerms =
     [''preliminary'', ''limited sample'', ''pilot study'', ''small cohort'',
      ''inconclusive'', ''mixed results'', ''further research needed'',
      ''conflicting'', ''questionable'', ''limitations'', ''not statistically significant'']"

definition ratingText :: "PubMedArticle \<Rightarrow> ArticleContent \<Rightarrow> string" where
  "ratingText article content = toLowerCase (title article @ '' '' @ fullText content)"

definition controversialScore :: "PubMedArticle \<Rightarrow> ArticleContent \<Rightarrow> jsnum" where
  "controversialScore article content =
     scoreTermsPresence (ratingText article content) avoidTopics (Num 10)"

definition weightedScore ::
  "jsnum \<Rightarrow> jsnum \<Rightarrow> jsnum \<Rightarrow> jsnum \<Rightarrow> jsnum \<Rightarrow> jsnum \<Rightarrow> jsnum" where
  "weightedScore nov imp meth rel red contro =
     jsub (jsub (jadd (jadd (jadd (jmul nov (Num 0.25)) (jmul imp (Num 0.3)))
                            (jmul meth (Num 0.25)))
                      (jmul rel (Num 0.2)))
                (jmul red (Num 0.5)))
          (jmul contro (Num 2))"

definition rateArticle :: "PubMedArticle \<Rightarrow> ArticleContent \<Rightarrow> ArticleRating" where
  "rateArticle article content =
     (let fullText = ratingText article content;
          nov = scoreTermsPresence fullText noveltyTerms (Num 10);
          imp = scoreTermsPresence fullText impactTerms (Num 10);
          meth = scoreTermsPresence fullText methodologyTerms (Num 10);
          rel = scoreTermsPresence fullText relevanceTerms (Num 10);
          redFlagScore = scoreTermsPresence fullText redFlagTerms (Num 10);
          contro = scoreTermsPresence fullText avoidTopics (Num 10);
          sc = mathMax (Num 0) (mathMin (Num 10) (weightedScore nov imp meth rel redFlagScore contro))
      in \<lparr> rating_id = article_id article, score = sc, novelty = nov, impact = imp,
           methodology = meth, relevance = rel,
           tweetable = (jge sc minScoreToTweet \<and> jlt contro (Num 0.5)) \<rparr>)"

section \<open>Regular expressions\<close>

text \<open>
  The regular expressions of the source are embedded as values of \<open>re\<close> and run by a
  backtracking matcher.  A position is the character before the cursor (none at the start
  of the input) and the rest of the input.  \<open>matches ic r st\<close> lists the positions at
  which a match of \<open>r\<close> started at \<open>st\<close> can end, in the order in which a backtracking
  engine tries them: the first alternative before the second, one more iteration of a greedy
  star before stopping, stopping before one more iteration of a lazy star.  An iteration of
  a star that consumes nothing is rejected, as the source language's engine does.  \<open>ic\<close>
  is the i flag: a character of the input then matches a literal of the expression when the
  two agree up to case.  Every literal of the source's expressions is ASCII, and no
  character outside ASCII agrees with an ASCII character up to case.

  \<open>isSpace\<close> is the class \<open>\s\<close>, which is also what \<open>trim\<close> removes: among the code
  units below 256 these are tab, line feed, vertical tab, form feed, carriage return, space
  and the no-break space U+00A0.  \<open>isLineTerminator\<close> holds what \<open>.\<close> does not match.
\<close>

definition isSpace :: "char \<Rightarrow> bool" where
  "isSpace c =
     (c \<in> set [CHR '' '', CHR 0x09, CHR 0x0A, CHR 0x0B, CHR 0x0C, CHR 0x0D, CHR 0xA0])"

definition isDigit :: "char \<Rightarrow> bool" where
  "isDigit c = (c \<in> set ''0123456789'')"

definition isWordChar :: "char \<Rightarrow> bool" where
  "isWordChar c =
     (c \<in> set ''abcdefghijklmnopqrstuvwxyzABCDEFGHIJKLMNOPQRSTUVWXYZ0123456789_'')"

definition isLineTerminator :: "char \<Rightarrow> bool" where
  "isLineTerminator c = (c \<in> set [CHR 0x0A, CHR 0x0D])"

datatype re =
    Ch char
  | Space
  | Digit
  | WordCh
  | AnyCh
  | NotCh char
  | Bol
  | WordB
  | Empty
  | Conc re re
  | Alt re re
  | Star re
  | LazyStar re

type_synonym pos = "char option \<times> string"

fun step :: "(char \<Rightarrow> bool) \<Rightarrow> pos \<Rightarrow> pos list" where
  "step P (p, []) = []"
| "step P (p, x # xs) = (if P x then [(Some x, xs)] else [])"

fun atWordBoundary :: "pos \<Rightarrow> bool" where
  "atWordBoundary (p, s) =
     ((case p of None \<Rightarrow> False | Some c \<Rightarrow> isWordChar c)
        \<noteq> (case s of [] \<Rightarrow> False | x # _ \<Rightarrow> isWordChar x))"

fun matches :: "bool \<Rightarrow> re \<Rightarrow> pos \<Rightarrow> pos list" where
  "matches ic (Ch c) st =
     step (\<lambda>x. if ic then lowerChar x = lowerChar c else x = c) st"
| "matches ic Space st = step isSpace st"
| "matches ic Digit st = step isDigit st"
| "matches ic WordCh st = step isWordChar st"
| "matches ic AnyCh st = step (\<lambda>x. \<not> isLineTerminator x) st"
| "matches ic (NotCh c) st = step (\<lambda>x. x \<noteq> c) st"
| "matches ic Bol st = (if fst st = None then [st] else [])"
| "matches ic WordB st = (if atWordBoundary st then [st] else [])"
| "matches ic Empty st = [st]"
| "matches ic (Conc r1 r2) st = concat (map (matches ic r2) (matches ic r1 st))"
| "matches ic (Alt r1 r2) st = matches ic r1 st @ matches ic r2 st"
| "matches ic (Star r) st =
     concat (map (matches ic (Star r))
               (filter (\<lambda>st'. length (snd st') < length (snd st)) (matches ic r st))) @ [st]"
| "matches ic (LazyStar r) st =
     st # concat (map (matches ic (LazyStar r))
               (filter (\<lambda>st'. length (snd st') < length (snd st)) (matches ic r st)))"

fun lit :: "string \<Rightarrow> re" where
  "lit [] = Empty"
| "lit [c] = Ch c"
| "lit (c # cs) = Conc (Ch c) (lit cs)"

fun seqs :: "re list \<Rightarrow> re" where
  "seqs [] = Empty"
| "seqs [r] = r"
| "seqs (r # rs) = Conc r (seqs rs)"

fun alts :: "re list \<Rightarrow> re" where
  "alts [] = Empty"
| "alts [r] = r"
| "alts (r # rs) = Alt r (alts rs)"

definition Optional :: "re \<Rightarrow> re" where
  "Optional r = Alt r Empty"

definition OneOrMore :: "re \<Rightarrow> re" where
  "OneOrMore r = Conc r (Star r)"

text \<open>\<open>r{n}\<close> and the greedy \<open>r{0,n}\<close>; \<open>r{5,10}\<close> is \<open>r{5}\<close> followed by \<open>r{0,5}\<close>.\<close>

fun repeatN :: "nat \<Rightarrow> re \<Rightarrow> re" where
  "repeatN 0 r = Empty"
| "repeatN (Suc n) r = Conc r (repeatN n r)"

fun uptoN :: "nat \<Rightarrow> re \<Rightarrow> re" where
  "uptoN 0 r = Empty"
| "uptoN (Suc n) r = Alt (Conc r (uptoN n r)) Empty"

text \<open>
  \<open>String.prototype.match\<close> and \<open>replace\<close> without the g flag use the leftmost start
  position at which the expression matches, and the engine's first match there.
\<close>

fun reFindFrom :: "bool \<Rightarrow> re \<Rightarrow> char option \<Rightarrow> string \<Rightarrow> string option" where
  "reFindFrom ic r p [] =
     (case matches ic r (p, []) of [] \<Rightarrow> None | m # _ \<Rightarrow> Some [])"
| "reFindFrom ic r p (x # xs) =
     (case matches ic r (p, x # xs) of
        [] \<Rightarrow> reFindFrom ic r (Some x) xs
      | m # _ \<Rightarrow> Some (take (length (x # xs) - length (snd m)) (x # xs)))"

definition reFind :: "bool \<Rightarrow> re \<Rightarrow> string \<Rightarrow> string option" where
  "reFind ic r s = reFindFrom ic r None s"

fun replaceFirstFrom :: "bool \<Rightarrow> re \<Rightarrow> string \<Rightarrow> char option \<Rightarrow> string \<Rightarrow> string" where
  "replaceFirstFrom ic r rep p [] =
     (case matches ic r (p, []) of [] \<Rightarrow> [] | m # _ \<Rightarrow> rep @ snd m)"
| "replaceFirstFrom ic r rep p (x # xs) =
     (case matches ic r (p, x # xs) of
        [] \<Rightarrow> x # replaceFirstFrom ic r rep (Some x) xs
      | m # _ \<Rightarrow> rep @ snd m)"

definition replaceFirst :: "bool \<Rightarrow> re \<Rightarrow> string \<Rightarrow> string \<Rightarrow> string" where
  "replaceFirst ic r rep s = replaceFirstFrom ic r rep None s"

text \<open>
  \<open>replace\<close> with the g flag: after a match the scan goes on where the match ended; after
  an empty match the next character is copied and the scan goes on behind it.
\<close>

function replaceAllFrom :: "bool \<Rightarrow> re \<Rightarrow> string \<Rightarrow> char option \<Rightarrow> string \<Rightarrow> string" where
  "replaceAllFrom ic r rep p s =
     (case matches ic r (p, s) of
        [] \<Rightarrow> (case s of [] \<Rightarrow> [] | x # xs \<Rightarrow> x # replaceAllFrom ic r rep (Some x) xs)
      | m # _ \<Rightarrow>
          if length (snd m) < length s then rep @ replaceAllFrom ic r rep (fst m) (snd m)
          else (case s of [] \<Rightarrow> rep | x # xs \<Rightarrow> rep @ x # replaceAllFrom ic r rep (Some x) xs))"
  by pat_completeness auto
termination
  by (relation "measure (\<lambda>(ic, r, rep, p, s). length s)") auto

definition replaceAll :: "bool \<Rightarrow> re \<Rightarrow> string \<Rightarrow> string \<Rightarrow> string" where
  "replaceAll ic r rep s = replaceAllFrom ic r rep None s"

text \<open>
  \<open>String.prototype.split\<close> with a regular expression: \<open>cur\<close> is the piece collected since
  the last separator.  A separator match that ends where the piece started is skipped.
\<close>

function splitFrom :: "bool \<Rightarrow> re \<Rightarrow> char option \<Rightarrow> string \<Rightarrow> string \<Rightarrow> string list" where
  "splitFrom ic r p cur s =
     (case s of
        [] \<Rightarrow> [cur]
      | x # xs \<Rightarrow>
          (case matches ic r (p, s) of
             [] \<Rightarrow> splitFrom ic r (Some x) (cur @ [x]) xs
           | m # _ \<Rightarrow>
               if length (snd m) < length s then cur # splitFrom ic r (fst m) [] (snd m)
               else if cur = [] then splitFrom ic r (Some x) [x] xs
               else cur # splitFrom ic r (Some x) [x] xs))"
  by pat_completeness auto
termination
  by (relation "measure (\<lambda>(ic, r, p, cur, s). length s)") auto

definition splitRe :: "bool \<Rightarrow> re \<Rightarrow> string \<Rightarrow> string list" where
  "splitRe ic r s =
     (if s = [] then (if matches ic r (None, []) = [] then [[]] else [])
      else splitFrom ic r None [] s)"

definition trim :: "string \<Rightarrow> string" where
  "trim s = rev (dropWhile isSpace (rev (dropWhile isSpace s)))"

section \<open>Text simplification and the payoff sentence\<close>

text \<open>The nine expressions of \<open>simplifyText\<close>, in the order of the source.\<close>

definition dsSuffix :: re where
  "dsSuffix = Optional (Alt (Ch CHR ''d'') (Ch CHR ''s''))"

definition reAttribution :: re where
  "reAttribution =
     seqs [Bol, Star Space,
           alts [lit ''we'', lit ''the authors'', lit ''researchers'', lit ''this study''],
           OneOrMore Space,
           alts [lit ''found'',
                 Conc (lit ''demonstrate'') dsSuffix,
                 Conc (lit ''show'') (Optional (Alt (Ch CHR ''n'') (Ch CHR ''s''))),
                 Conc (lit ''conclude'') dsSuffix,
                 Conc (lit ''observe'') dsSuffix,
                 Conc (lit ''note'') dsSuffix,
                 Conc (lit ''report'') dsSuffix],
           OneOrMore Space, lit ''that'', OneOrMore Space]"

definition reParens :: re where
  "reParens = seqs [Ch CHR ''('', LazyStar AnyCh, Ch CHR '')'']"

definition reBrackets :: re where
  "reBrackets = seqs [Ch CHR ''['', LazyStar AnyCh, Ch CHR '']'']"

definition reConnective :: re where
  "reConnective =
     seqs [Ch CHR '','', Star Space,
           alts [lit ''respectively'', lit ''however'', lit ''therefore'', lit ''thus'',
                 lit ''hence'', lit ''moreover''],
           Star Space, Ch CHR '','']"

definition reSpaces :: re where
  "reSpaces = OneOrMore Space"

definition reDataSuggest :: re where
  "reDataSuggest =
     seqs [Bol, Star Space,
           alts [lit ''these'', lit ''the'', lit ''our''],
           OneOrMore Space,
           alts [lit ''data'', lit ''results'', lit ''findings''],
           OneOrMore Space,
           alts [lit ''suggest'', lit ''indicate'', lit ''show'', lit ''demonstrate'',
                 lit ''reveal''],
           OneOrMore Space, lit ''that'', OneOrMore Space]"

definition reItIs :: re where
  "reItIs =
     seqs [Bol, Star Space,
           seqs [lit ''it'', OneOrMore Space, alts [lit ''is'', lit ''was''], OneOrMore Space,
                 alts [lit ''found'', lit ''shown'', lit ''demonstrated'', lit ''concluded''],
                 OneOrMore Space, lit ''that''],
           OneOrMore Space]"

definition rePValue :: re where
  "rePValue =
     seqs [OneOrMore Space,
           seqs [Ch CHR ''p'', Star Space,
                 alts [Ch CHR ''<'', Ch CHR ''>'', Ch CHR ''=''],
                 Star Space, Optional (Ch CHR ''0''), Ch CHR ''.'', OneOrMore Digit]]"

definition reConfidence :: re where
  "reConfidence =
     seqs [OneOrMore Space, Ch CHR ''('', OneOrMore Digit,
           Optional (Conc (Ch CHR ''.'') (OneOrMore Digit)),
           Ch CHR ''%'', Star Space,
           alts [lit ''CI'', lit ''confidence interval''],
           OneOrMore (NotCh CHR '')''), Ch CHR '')'']"

definition simplifyText :: "string \<Rightarrow> string" where
  "simplifyText s =
     (let s1 = replaceFirst True reAttribution [] s;
          s2 = replaceAll False reParens [] s1;
          s3 = replaceAll False reBrackets [] s2;
          s4 = replaceAll False reConnective '','' s3;
          s5 = replaceAll False reSpaces '' '' s4;
          s6 = trim s5;
          s7 = replaceFirst True reDataSuggest [] s6;
          s8 = replaceFirst True reItIs [] s7;
          s9 = replaceFirst False rePValue [] s8;
          s10 = replaceFirst False reConfidence [] s9
      in s10 @ ''.'')"

text \<open>
  The payoff sentence of \<open>generateSummary\<close>: the text is split at every full stop followed
  by white space; \<open>find\<close> gives the first sentence that satisfies the keyword test, and
  \<open>||\<close> falls back to the last sentence.  The base class (pubmed-agent.ts) tests five
  keywords, the override of the Twitter agent (twitter-pubmed-agent.ts) three.  The result
  is \<open>None\<close> where the source would read past an empty array.
\<close>

definition reSentenceEnd :: re where
  "reSentenceEnd = seqs [Ch CHR ''.'', OneOrMore Space]"

definition basePayoffTest :: "string \<Rightarrow> bool" where
  "basePayoffTest s =
     (str_includes (toLowerCase s) ''conclude'' \<or>
      str_includes (toLowerCase s) ''finding'' \<or>
      str_includes (toLowerCase s) ''result'' \<or>
      str_includes (toLowerCase s) ''demonstrate'' \<or>
      str_includes (toLowerCase s) ''show'')"

definition twitterPayoffTest :: "string \<Rightarrow> bool" where
  "twitterPayoffTest s =
     (str_includes (toLowerCase s) ''conclude'' \<or>
      str_includes (toLowerCase s) ''finding'' \<or>
      str_includes (toLowerCase s) ''result'')"

definition payoffSentence :: "(string \<Rightarrow> bool) \<Rightarrow> string \<Rightarrow> string option" where
  "payoffSentence test txt =
     (let abstractSentences = splitRe False reSentenceEnd txt
      in case find test abstractSentences of
           Some s \<Rightarrow> Some s
         | None \<Rightarrow> (if abstractSentences = [] then None else Some (last abstractSentences)))"

definition base_mainPoint :: "ArticleContent \<Rightarrow> string option" where
  "base_mainPoint content = payoffSentence basePayoffTest (fullText content)"

definition twitter_mainPoint :: "ArticleContent \<Rightarrow> string option" where
  "twitter_mainPoint content = payoffSentence twitterPayoffTest (fullText content)"

section \<open>Mention routing (twitter-pubmed-agent.ts)\<close>

record Tweet =
  tweet_id :: string
  tweet_text :: string
  tweet_author_id :: string

text \<open>\<open>includes_users\<close> lists the (id, username) pairs of \<open>tweetData.includes.users\<close>.\<close>

record TweetData =
  tweet_data :: "Tweet option"
  includes_users :: "(string \<times> string) list option"

record TwitterMention =
  mention_id :: string
  mention_text :: string
  mention_author_id :: string
  mention_username :: string

text \<open>
  What \<open>handleTwitterMention\<close> does with a mention: the handler it calls and the
  arguments it passes, the direct reply that asks for a valid id, or nothing.
\<close>

datatype action =
    HandleSearch TwitterMention string
  | HandleSummarize TwitterMention string
  | ReplyNeedValidId TwitterMention
  | HandleQuestion TwitterMention
  | HandleGreeting TwitterMention
  | HandleGeneric TwitterMention
  | Ignore

definition reAtMention :: re where
  "reAtMention = seqs [Ch CHR ''@'', OneOrMore WordCh]"

definition reSearchCommand :: re where
  "reSearchCommand = Alt (Conc Bol (lit ''/search'')) (lit ''search for'')"

definition reSummarizeNumber :: re where
  "reSummarizeNumber = seqs [lit ''summarize'', OneOrMore Space, OneOrMore Digit]"

definition rePmid :: re where
  "rePmid = seqs [WordB, repeatN 5 Digit, uptoN 5 Digit, WordB]"

definition makeMention :: "Tweet \<Rightarrow> (string \<times> string) list option \<Rightarrow> TwitterMention" where
  "makeMention tweet users =
     \<lparr> mention_id = tweet_id tweet,
       mention_text = trim (replaceAll False reAtMention [] (tweet_text tweet)),
       mention_author_id = tweet_author_id tweet,
       mention_username =
         (case users of
            None \<Rightarrow> ''user''
          | Some us \<Rightarrow>
              (case find (\<lambda>u. fst u = tweet_author_id tweet) us of
                 None \<Rightarrow> ''user''
               | Some u \<Rightarrow> snd u)) \<rparr>"

definition isGreeting :: "string \<Rightarrow> bool" where
  "isGreeting str =
     list_ex (\<lambda>greeting. str_includes str greeting)
       [''hi'', ''hello'', ''hey'', ''sup'', ''yo'', ''greetings'', ''howdy'']"

definition isSearchIntent :: "string \<Rightarrow> bool" where
  "isSearchIntent t =
     (startsWith (toLowerCase t) ''/search'' \<or> str_includes (toLowerCase t) ''search for'')"

definition isSummarizeIntent :: "string \<Rightarrow> bool" where
  "isSummarizeIntent t =
     (startsWith (toLowerCase t) ''/summarize'' \<or> reFind True reSummarizeNumber t \<noteq> None)"

definition isQuestionIntent :: "string \<Rightarrow> bool" where
  "isQuestionIntent t =
     (str_includes t ''?'' \<or> str_includes (toLowerCase t) ''what'' \<or>
      str_includes (toLowerCase t) ''how'' \<or> str_includes (toLowerCase t) ''why'')"

definition routeMention :: "TwitterMention \<Rightarrow> action" where
  "routeMention mention =
     (if isSearchIntent (mention_text mention) then
        HandleSearch mention (trim (replaceFirst True reSearchCommand [] (mention_text mention)))
      else if isSummarizeIntent (mention_text mention) then
        (case reFind False rePmid (mention_text mention) of
           Some pmid \<Rightarrow> HandleSummarize mention pmid
         | None \<Rightarrow> ReplyNeedValidId mention)
      else if isQuestionIntent (mention_text mention) then HandleQuestion mention
      else if isGreeting (toLowerCase (mention_text mention)) then HandleGreeting mention
      else HandleGeneric mention)"

definition handleTwitterMention :: "TweetData option \<Rightarrow> action" where
  "handleTwitterMention tweetData =
     (case tweetData of
        None \<Rightarrow> Ignore
      | Some td \<Rightarrow>
          (case tweet_data td of
             None \<Rightarrow> Ignore
           | Some tweet \<Rightarrow> routeMention (makeMention tweet (includes_users td))))"

section \<open>Discovery pass, post queue and daily reset\<close>

record QueueEntry =
  entry_text :: string
  entry_time :: int

text \<open>
  The mutable fields of the agent.  Times are milliseconds.  \<open>recentArticleIds\<close> is only
  added to, tested for membership and cleared.
\<close>

record AgentState =
  tweetsPostedToday :: nat
  lastTweetTime :: int
  recentArticleIds :: "string set"
  tweetQueue :: "QueueEntry list"
  processingQueue :: bool

definition maxDailyTweets :: nat where
  "maxDailyTweets = 5"

definition tweetInterval :: int where
  "tweetInterval = 3 * 60 * 60 * 1000"

text \<open>What a pass or a tick did to the outside: ratings made, texts queued, posts tried.\<close>

datatype event =
    Rated string bool
  | Enqueued string
  | Posted string string
  | PostFailed string

definition fetchFullArticleContent :: "PubMedArticle \<Rightarrow> ArticleContent" where
  "fetchFullArticleContent article =
     \<lparr> content_id = article_id article,
       fullText = (if abstract article = [] then ''Content not available'' else abstract article) \<rparr>"

text \<open>The override of \<open>postTweet\<close> in the Twitter agent: the text is appended to the queue.\<close>

definition postTweet :: "int \<Rightarrow> string \<Rightarrow> AgentState \<Rightarrow> AgentState" where
  "postTweet now txt a =
     a\<lparr> tweetQueue := tweetQueue a @ [\<lparr> entry_text = txt, entry_time = now \<rparr>] \<rparr>"

text \<open>
  The timer of \<open>startQueueProcessor\<close>.  \<open>post\<close> is \<open>twitterClient.postTweet\<close>, which
  returns the id of the new tweet or null; the source tests the id for truthiness, which an
  empty string fails.  The busy flag is set for the duration of the tick and cleared at its
  end.
\<close>

definition truthyId :: "string option \<Rightarrow> bool" where
  "truthyId r = (case r of None \<Rightarrow> False | Some i \<Rightarrow> i \<noteq> [])"

definition queueTick :: "int \<Rightarrow> (string \<Rightarrow> string option) \<Rightarrow> AgentState \<Rightarrow> AgentState \<times> event list" where
  "queueTick now post a =
     (case tweetQueue a of
        [] \<Rightarrow> (a, [])
      | nextTweet # rest \<Rightarrow>
          if processingQueue a then (a, [])
          else
            let a1 = a\<lparr> processingQueue := True \<rparr>;
                timeSinceLastTweet = now - lastTweetTime a1
            in if timeSinceLastTweet \<ge> tweetInterval then
                 (case post (entry_text nextTweet) of
                    Some tweetId \<Rightarrow>
                      if truthyId (Some tweetId) then
                        (a1\<lparr> lastTweetTime := now,
                             tweetsPostedToday := tweetsPostedToday a1 + 1,
                             tweetQueue := rest,
                             processingQueue := False \<rparr>,
                         [Posted (entry_text nextTweet) tweetId])
                      else (a1\<lparr> processingQueue := False \<rparr>, [PostFailed (entry_text nextTweet)])
                  | None \<Rightarrow> (a1\<lparr> processingQueue := False \<rparr>, [PostFailed (entry_text nextTweet)]))
               else (a1\<lparr> processingQueue := False \<rparr>, []))"

text \<open>The daily timer of \<open>scheduleJobs\<close>.\<close>

definition dailyReset :: "AgentState \<Rightarrow> AgentState" where
  "dailyReset a = a\<lparr> tweetsPostedToday := 0, recentArticleIds := {} \<rparr>"

text \<open>
  A discovery pass is not one step: it waits for the network at every \<open>await\<close> of a search
  (\<open>searchRecentArticles\<close>) and of a content fetch (\<open>fetchFullArticleContent\<close>), and the
  queue timer and the daily timer can fire while it waits.  What fires during one wait is a
  list of interruptions; a pass is given one such list for each wait it makes, in order, and
  a wait for which no list is left is not interrupted.  \<open>awaitNetwork\<close> applies the
  interruptions of the next wait to the state and returns the lists that remain.  A second
  discovery pass that would start during a wait (the discovery timer has a period of four
  hours) is not among the interruptions.
\<close>

datatype interruption =
    QueueFires int "string \<Rightarrow> string option"
  | ResetFires

fun interruptWith :: "interruption \<Rightarrow> AgentState \<Rightarrow> AgentState \<times> event list" where
  "interruptWith (QueueFires now post) a = queueTick now post a"
| "interruptWith ResetFires a = (dailyReset a, [])"

fun interruptAll :: "interruption list \<Rightarrow> AgentState \<Rightarrow> AgentState \<times> event list" where
  "interruptAll [] a = (a, [])"
| "interruptAll (i # rest) a =
     (case interruptWith i a of
        (a', evs) \<Rightarrow> (case interruptAll rest a' of (a'', evs') \<Rightarrow> (a'', evs @ evs')))"

fun awaitNetwork ::
  "interruption list list \<Rightarrow> AgentState \<Rightarrow> AgentState \<times> event list \<times> interruption list list" where
  "awaitNetwork [] a = (a, [], [])"
| "awaitNetwork (iv # ivs) a = (case interruptAll iv a of (a', evs) \<Rightarrow> (a', evs, ivs))"

text \<open>
  \<open>findAndTweetTopArticle\<close> (pubmed-agent.ts, called unchanged by the override).  The
  collaborators are parameters: \<open>summary\<close> is \<open>generateSummary\<close>, whose result depends on
  random choices; \<open>search\<close> is \<open>searchRecentArticles\<close> with limit 5; \<open>topics\<close> is the
  result of \<open>getRandomizedTopics\<close>; \<open>now\<close> is the clock at the moment the pass queues a
  text; \<open>ivs\<close> are the interruptions of the waits of the pass.  An article is marked as
  seen before its content is fetched, and rated after.  Queueing the text and incrementing
  the counter follow the rating with no wait for the network between them.  The inner loop
  returns whether it posted, which ends the pass.
\<close>

fun rateCandidates ::
  "(PubMedArticle \<Rightarrow> ArticleContent \<Rightarrow> string) \<Rightarrow> int \<Rightarrow> PubMedArticle list
     \<Rightarrow> interruption list list \<Rightarrow> AgentState
     \<Rightarrow> AgentState \<times> event list \<times> bool \<times> interruption list list" where
  "rateCandidates summary now [] ivs a = (a, [], False, ivs)"
| "rateCandidates summary now (article # rest) ivs a =
     (if article_id article \<in> recentArticleIds a then rateCandidates summary now rest ivs a
      else
        (case awaitNetwork ivs
                (a\<lparr> recentArticleIds := insert (article_id article) (recentArticleIds a) \<rparr>) of
           (a1, evs0, ivs1) \<Rightarrow>
             let fullContent = fetchFullArticleContent article;
                 rating = rateArticle article fullContent
             in if tweetable rating then
                  let tweetText = summary article fullContent;
                      a2 = postTweet now tweetText a1;
                      a3 = a2\<lparr> tweetsPostedToday := tweetsPostedToday a2 + 1,
                              lastTweetTime := now \<rparr>
                  in (a3, evs0 @ [Rated (article_id article) True, Enqueued tweetText], True, ivs1)
                else
                  (case rateCandidates summary now rest ivs1 a1 of
                     (a', evs, done, ivs') \<Rightarrow>
                       (a', evs0 @ Rated (article_id article) False # evs, done, ivs'))))"

fun searchTopics ::
  "(PubMedArticle \<Rightarrow> ArticleContent \<Rightarrow> string) \<Rightarrow> (string \<Rightarrow> PubMedArticle list) \<Rightarrow> int
     \<Rightarrow> string list \<Rightarrow> interruption list list \<Rightarrow> AgentState \<Rightarrow> AgentState \<times> event list" where
  "searchTopics summary search now [] ivs a = (a, [])"
| "searchTopics summary search now (topic # topics) ivs a =
     (case awaitNetwork ivs a of
        (a0, evs0, ivs0) \<Rightarrow>
          (case rateCandidates summary now (search topic) ivs0 a0 of
             (a', evs, done, ivs') \<Rightarrow>
               if done then (a', evs0 @ evs)
               else (case searchTopics summary search now topics ivs' a' of
                       (a'', evs') \<Rightarrow> (a'', evs0 @ evs @ evs'))))"

definition findAndTweetTopArticle ::
  "(PubMedArticle \<Rightarrow> ArticleContent \<Rightarrow> string) \<Rightarrow> (string \<Rightarrow> PubMedArticle list) \<Rightarrow> int
     \<Rightarrow> string list \<Rightarrow> interruption list list \<Rightarrow> AgentState \<Rightarrow> AgentState \<times> event list" where
  "findAndTweetTopArticle summary search now topics ivs a =
     searchTopics summary search now topics ivs a"

text \<open>
  The discovery timer of \<open>scheduleJobs\<close>: the cap is tested once, when the timer fires, and
  not again during the pass.
\<close>

definition discoveryTick ::
  "(PubMedArticle \<Rightarrow> ArticleContent \<Rightarrow> string) \<Rightarrow> (string \<Rightarrow> PubMedArticle list) \<Rightarrow> int
     \<Rightarrow> string list \<Rightarrow> interruption list list \<Rightarrow> AgentState \<Rightarrow> AgentState \<times> event list" where
  "discoveryTick summary search now topics ivs a =
     (if tweetsPostedToday a < maxDailyTweets
      then findAndTweetTopArticle summary search now topics ivs a
      else (a, []))"

text \<open>
  The timers fire in some order; a run threads the state through them and joins the logs.
  A discovery timer carries the interruptions of its pass; with none, the pass runs from its
  start to its end before anything else fires.
\<close>

datatype timer =
    DiscoveryTimer "PubMedArticle \<Rightarrow> ArticleContent \<Rightarrow> string" "string \<Rightarrow> PubMedArticle list"
      int "string list" "interruption list list"
  | QueueTimer int "string \<Rightarrow> string option"
  | ResetTimer

fun fire :: "timer \<Rightarrow> AgentState \<Rightarrow> AgentState \<times> event list" where
  "fire (DiscoveryTimer summary search now topics ivs) a =
     discoveryTick summary search now topics ivs a"
| "fire (QueueTimer now post) a = queueTick now post a"
| "fire ResetTimer a = (dailyReset a, [])"

fun run :: "timer list \<Rightarrow> AgentState \<Rightarrow> AgentState \<times> event list" where
  "run [] a = (a, [])"
| "run (t # ts) a =
     (case fire t a of (a', evs) \<Rightarrow> (case run ts a' of (a'', evs') \<Rightarrow> (a'', evs @ evs')))"

fun isPosted :: "event \<Rightarrow> bool" where
  "isPosted (Posted _ _) = True"
| "isPosted _ = False"

fun isAttempt :: "event \<Rightarrow> bool" where
  "isAttempt (Posted _ _) = True"
| "isAttempt (PostFailed _) = True"
| "isAttempt _ = False"

fun isDiscoveryEvent :: "event \<Rightarrow> bool" where
  "isDiscoveryEvent (Rated _ _) = True"
| "isDiscoveryEvent (Enqueued _) = True"
| "isDiscoveryEvent _ = False"

fun postedText :: "event \<Rightarrow> string option" where
  "postedText (Posted t _) = Some t"
| "postedText _ = None"

section \<open>Phrase rotation and topic enthusiasm (personality-system.ts)\<close>

text \<open>
  \<open>lastUsed\<close> is a Set, which keeps insertion order: a list without repetition, oldest
  entry first.  \<open>rnd\<close> stands for the outcome of \<open>Math.random\<close>: the index
  \<open>Math.floor(Math.random() * n)\<close> can be any of \<open>0 .. n - 1\<close>, here \<open>rnd mod n\<close>.
\<close>

definition setAdd :: "string list \<Rightarrow> string \<Rightarrow> string list" where
  "setAdd xs x = (if x \<in> set xs then xs else xs @ [x])"

definition drawPhrase :: "nat \<Rightarrow> string list \<Rightarrow> string list \<Rightarrow> string \<times> string list" where
  "drawPhrase rnd phrases lastUsed =
     (let unused = filter (\<lambda>phrase. phrase \<notin> set lastUsed) phrases;
          lastUsed1 = (if unused = [] then [] else lastUsed);
          availablePhrases = (if unused = [] then phrases else unused);
          selectedPhrase = availablePhrases ! (rnd mod length availablePhrases);
          lastUsed2 = setAdd lastUsed1 selectedPhrase;
          lastUsed3 = (if real (length lastUsed2) > real (length phrases) / 2
                       then tl lastUsed2 else lastUsed2)
      in (selectedPhrase, lastUsed3))"

text \<open>
  \<open>getPhrase\<close>: the vocabulary maps a category to its phrases, \<open>lastUsedPhrases\<close> a
  category to its recently used ones.  A missing or empty category gives the empty string
  and changes nothing.
\<close>

definition getPhrase ::
  "nat \<Rightarrow> (string \<rightharpoonup> string list) \<Rightarrow> string \<Rightarrow> (string \<rightharpoonup> string list)
     \<Rightarrow> string \<times> (string \<rightharpoonup> string list)" where
  "getPhrase rnd vocabulary category lastUsedPhrases =
     (case vocabulary category of
        None \<Rightarrow> ([], lastUsedPhrases)
      | Some phrases \<Rightarrow>
          if phrases = [] then ([], lastUsedPhrases)
          else
            (case drawPhrase rnd phrases
                    (case lastUsedPhrases category of None \<Rightarrow> [] | Some l \<Rightarrow> l) of
               (selectedPhrase, lastUsed) \<Rightarrow>
                 (selectedPhrase, lastUsedPhrases(category \<mapsto> lastUsed))))"

text \<open>Consecutive draws from one category, one random outcome each.\<close>

fun getPhrases ::
  "nat list \<Rightarrow> (string \<rightharpoonup> string list) \<Rightarrow> string \<Rightarrow> (string \<rightharpoonup> string list)
     \<Rightarrow> string list \<times> (string \<rightharpoonup> string list)" where
  "getPhrases [] vocabulary category st = ([], st)"
| "getPhrases (rnd # rnds) vocabulary category st =
     (case getPhrase rnd vocabulary category st of
        (p, st') \<Rightarrow>
          (case getPhrases rnds vocabulary category st' of (ps, st'') \<Rightarrow> (p # ps, st'')))"

text \<open>
  \<open>getTopicEnthusiasm\<close>: the table lists the entries of \<open>topicEnthusiasm\<close> in the order
  \<open>Object.entries\<close> gives them, each key once.  The first test is on the truthiness of the
  stored number, which 0 fails.  Topics that name a property every object inherits (such as
  "constructor") are left out of the model.
\<close>

definition getTopicEnthusiasm :: "(string \<times> real) list \<Rightarrow> string \<Rightarrow> real" where
  "getTopicEnthusiasm topicEnthusiasm topic =
     (case map_of topicEnthusiasm topic of
        Some v \<Rightarrow>
          if v \<noteq> 0 then v
          else (case find (\<lambda>(key, val). str_includes topic key \<or> str_includes key topic)
                       topicEnthusiasm of
                  Some (key, val) \<Rightarrow> val
                | None \<Rightarrow> 5)
      | None \<Rightarrow>
          (case find (\<lambda>(key, val). str_includes topic key \<or> str_includes key topic)
                  topicEnthusiasm of
             Some (key, val) \<Rightarrow> val
           | None \<Rightarrow> 5))"

section \<open>A concrete article that is tweetable\<close>

text \<open>
  An abstract that names every novelty, impact and methodology term and no red-flag or
  avoid-list term; it is used where a run of the pipeline is evaluated.
\<close>

definition strongAbstract :: string where
  "strongAbstract = ''first time novel breakthrough pioneering discovered new approach innovative groundbreaking first-in-human paradigm shift revolutionize significant substantial major important crucial life-saving effective efficacy survival mortality quality of life large cohort multi-center phase 3 randomized double-blind placebo-controlled meta-analysis systematic review large sample longitudinal prospective controlled trial robust validated statistical significance''"

definition strongArticle :: PubMedArticle where
  "strongArticle = \<lparr> article_id = ''101'', title = ''trial'', abstract = strongAbstract,
      authors = [], publicationDate = [], journal = ''J'', doi = None, fullTextUrl = None \<rparr>"

definition strongText :: string where
  "strongText = ''trial '' @ strongAbstract"

section \<open>Notions used to state the properties of the phrase rotation\<close>

text \<open>
  \<open>currentUsed\<close> reads the recently used phrases of a category as \<open>getPhrase\<close> does;
  \<open>evictOldest\<close> is the eviction step of \<open>getPhrase\<close> with the size test in whole
  numbers; \<open>freshWithin h xs\<close> says that no element of \<open>xs\<close> occurs again among the
  \<open>h\<close> elements that follow it.
\<close>

definition currentUsed :: "(string \<rightharpoonup> string list) \<Rightarrow> string \<Rightarrow> string list" where
  "currentUsed st category = (case st category of None \<Rightarrow> [] | Some l \<Rightarrow> l)"

definition evictOldest :: "nat \<Rightarrow> string list \<Rightarrow> string list" where
  "evictOldest n xs = (if n < 2 * length xs then tl xs else xs)"

fun freshWithin :: "nat \<Rightarrow> 'a list \<Rightarrow> bool" where
  "freshWithin h [] = True"
| "freshWithin h (x # xs) = (x \<notin> set (take h xs) \<and> freshWithin h xs)"

definition greetingsVocabulary :: "string \<rightharpoonup> string list" where
  "greetingsVocabulary = [''greetings'' \<mapsto> [''a'', ''b'', ''c'', ''d'', ''e'']]"

section \<open>Notions used to state the properties of the text simplification\<close>





section \<open>Notions used to state the properties of the mention routing\<close>

text \<open>
  \<open>isPmidOccurrence pre w post\<close>: in the text \<open>pre @ w @ post\<close> the block \<open>w\<close> is a
  run of 5 to 10 digits with no word character (letter, digit or underscore) right before
  or right after it.  \<open>prevChar p w\<close> is the character before the cursor after \<open>w\<close> has
  been read from a position whose previous character was \<open>p\<close>.
\<close>

definition isPmidOccurrence :: "string \<Rightarrow> string \<Rightarrow> string \<Rightarrow> bool" where
  "isPmidOccurrence pre w post =
     (5 \<le> length w \<and> length w \<le> 10 \<and> list_all isDigit w \<and>
      (pre = [] \<or> \<not> isWordChar (last pre)) \<and> (post = [] \<or> \<not> isWordChar (hd post)))"

definition prevChar :: "char option \<Rightarrow> string \<Rightarrow> char option" where
  "prevChar p w = (if w = [] then p else Some (last w))"

section \<open>Verification: term scoring and rating\<close>

lemma countMatches_le: "countMatches s ts \<le> length ts"
  by (induction ts) auto

lemma scoreTermsPresence_Num:
  assumes "ts \<noteq> []" "0 \<le> m"
  shows "\<exists>v. scoreTermsPresence s ts (Num m) = Num v \<and> 0 \<le> v \<and> v \<le> m"
proof -
  let ?k = "countMatches s ts" and ?n = "length ts"
  have n: "0 < ?n" using assms by simp
  have "real ?k / real ?n \<le> 1" using countMatches_le[of s ts] n by simp
  then have "real ?k / real ?n * m \<le> 1 * m" using assms(2) by (intro mult_right_mono) auto
  moreover have "0 \<le> real ?k / real ?n * m" using assms(2) by simp
  ultimately show ?thesis using n by (simp add: scoreTermsPresence_def jdivCount_def jmul_def)
qed

text \<open>
  C1.  For every article and content, \<open>rateArticle\<close> computes six finite sub-scores; the
  composite score is \<open>novelty * 0.25 + impact * 0.30 + methodology * 0.25 + relevance * 0.20
  - redFlag * 0.50 - controversy * 2.0\<close> clamped to the interval from 0 to 10, so it lies
  in that interval; and the article is tweetable exactly when the composite score is at
  least 7.5 and the controversy sub-score (the term score over the avoid-topic list with
  maximum 10) is below 0.5.
\<close>

theorem rateArticle_score:
  "\<exists>nov imp meth rel red con s.
     scoreTermsPresence (ratingText a c) noveltyTerms (Num 10) = Num nov \<and>
     scoreTermsPresence (ratingText a c) impactTerms (Num 10) = Num imp \<and>
     scoreTermsPresence (ratingText a c) methodologyTerms (Num 10) = Num meth \<and>
     scoreTermsPresence (ratingText a c) relevanceTerms (Num 10) = Num rel \<and>
     scoreTermsPresence (ratingText a c) redFlagTerms (Num 10) = Num red \<and>
     scoreTermsPresence (ratingText a c) avoidTopics (Num 10) = Num con \<and>
     score (rateArticle a c) = Num s \<and>
     s = max 0 (min 10 (nov * 0.25 + imp * 0.30 + meth * 0.25 + rel * 0.20
                          - red * 0.50 - con * 2.0)) \<and>
     0 \<le> s \<and> s \<le> 10 \<and>
     tweetable (rateArticle a c) = (7.5 \<le> s \<and> con < 0.5)"
proof -
  let ?t = "ratingText a c"
  obtain nov where nov: "scoreTermsPresence ?t noveltyTerms (Num 10) = Num nov"
    using scoreTermsPresence_Num[of noveltyTerms 10 ?t] by (auto simp: noveltyTerms_def)
  obtain imp where imp: "scoreTermsPresence ?t impactTerms (Num 10) = Num imp"
    using scoreTermsPresence_Num[of impactTerms 10 ?t] by (auto simp: impactTerms_def)
  obtain meth where meth: "scoreTermsPresence ?t methodologyTerms (Num 10) = Num meth"
    using scoreTermsPresence_Num[of methodologyTerms 10 ?t] by (auto simp: methodologyTerms_def)
  obtain rel where rel: "scoreTermsPresence ?t relevanceTerms (Num 10) = Num rel"
    using scoreTermsPresence_Num[of relevanceTerms 10 ?t] by (auto simp: relevanceTerms_def)
  obtain red where red: "scoreTermsPresence ?t redFlagTerms (Num 10) = Num red"
    using scoreTermsPresence_Num[of redFlagTerms 10 ?t] by (auto simp: redFlagTerms_def)
  obtain con where con: "scoreTermsPresence ?t avoidTopics (Num 10) = Num con"
    using scoreTermsPresence_Num[of avoidTopics 10 ?t] by (auto simp: avoidTopics_def)
  let ?w = "nov * 0.25 + imp * 0.30 + meth * 0.25 + rel * 0.20 - red * 0.50 - con * 2.0"
  have w: "weightedScore (Num nov) (Num imp) (Num meth) (Num rel) (Num red) (Num con) = Num ?w"
    by (simp add: weightedScore_def jadd_def jsub_def jmul_def)
  have sc: "score (rateArticle a c) = Num (max 0 (min 10 ?w))"
    by (simp add: rateArticle_def Let_def nov imp meth rel red con w mathMax_def mathMin_def)
  have tw: "tweetable (rateArticle a c) = (7.5 \<le> max 0 (min 10 ?w) \<and> con < 0.5)"
    by (simp add: rateArticle_def Let_def nov imp meth rel red con w mathMax_def mathMin_def
        minScoreToTweet_def)
  show ?thesis
    using nov imp meth rel red con sc tw by simp
qed

text \<open>
  C2, as amended.  For every text, every term list that is not empty and every finite
  maximum that is not negative, \<open>scoreTermsPresence\<close> returns a finite value between 0 and
  the maximum.
\<close>

theorem scoreTermsPresence_bounds:
  assumes "ts \<noteq> []" and "0 \<le> m"
  shows "\<exists>v. scoreTermsPresence s ts (Num m) = Num v \<and> 0 \<le> v \<and> v \<le> m"
  using assms by (rule scoreTermsPresence_Num)

text \<open>
  Witness for C2: one of two terms occurs in the text, and the score with maximum 10 is 5.
\<close>

theorem scoreTermsPresence_bounds_witness:
  "[''novel'', ''pilot''] \<noteq> [] \<and> (0::real) \<le> 10 \<and>
   scoreTermsPresence ''a novel idea'' [''novel'', ''pilot''] (Num 10) = Num 5"
  using scoreTermsPresence_bounds[of "[''novel'', ''pilot'']" 10 "''a novel idea''"]
  by (simp add: scoreTermsPresence_def jdivCount_def jmul_def toLowerCase_def lowerChar_def
      upperLetters_def lowerLetters_def)

text \<open>
  Counterexample to C2 as stated.  With an empty term list the quotient is 0 / 0: the result
  is NaN, which is not 0 and lies in no interval.  With a negative maximum and a matching
  term the result is the maximum itself, below 0.
\<close>

theorem scoreTermsPresence_counterexample:
  "scoreTermsPresence ''abc'' [] (Num 10) = NaN \<and>
   scoreTermsPresence ''abc'' [] (Num 10) \<noteq> Num 0 \<and>
   scoreTermsPresence ''abc'' [''b''] (Num (- 1)) = Num (- 1)"
  by (simp add: scoreTermsPresence_def jdivCount_def jmul_def toLowerCase_def lowerChar_def
      upperLetters_def lowerLetters_def)

section \<open>Verification: the post queue\<close>

lemma queueTick_fail:
  assumes "tweetQueue a = e # rest" "\<not> processingQueue a"
    "tweetInterval \<le> now - lastTweetTime a" "\<not> truthyId (post (entry_text e))"
  shows "queueTick now post a = (a, [PostFailed (entry_text e)])"
  using assms by (auto simp: queueTick_def Let_def truthyId_def split: option.splits)

lemma queueTick_success:
  assumes "tweetQueue a = e # rest" "\<not> processingQueue a"
    "tweetInterval \<le> now - lastTweetTime a" "post (entry_text e) = Some i" "i \<noteq> []"
  shows "queueTick now post a =
           (a\<lparr> lastTweetTime := now, tweetsPostedToday := tweetsPostedToday a + 1,
               tweetQueue := rest \<rparr>, [Posted (entry_text e) i])"
  using assms by (auto simp: queueTick_def Let_def truthyId_def split: option.splits)

lemma queueTick_attempts:
  "length (filter isAttempt (snd (queueTick now post a))) \<le> 1"
  by (auto simp: queueTick_def Let_def truthyId_def split: list.splits option.splits)

lemma postTweet_enqueues:
  "tweetQueue (postTweet n t s) = tweetQueue s @ [\<lparr> entry_text = t, entry_time = n \<rparr>]"
  "lastTweetTime (postTweet n t s) = lastTweetTime s"
  "tweetsPostedToday (postTweet n t s) = tweetsPostedToday s"
  "processingQueue (postTweet n t s) = processingQueue s"
  by (simp_all add: postTweet_def)

text \<open>
  Two ticks on a queue that holds \<open>ea\<close> before \<open>eb\<close>: both posts succeed, or the first
  fails and \<open>ea\<close> is tried again.
\<close>

lemma queue_drain_two:
  assumes q: "tweetQueue a = ea # eb # rest" and np: "\<not> processingQueue a"
    and t1: "tweetInterval \<le> t1 - lastTweetTime a" and t2: "tweetInterval \<le> t2 - t1"
  shows
    "(\<forall>i1 i2. post1 (entry_text ea) = Some i1 \<and> i1 \<noteq> [] \<and>
              post2 (entry_text eb) = Some i2 \<and> i2 \<noteq> [] \<longrightarrow>
        run [QueueTimer t1 post1, QueueTimer t2 post2] a =
          (a\<lparr> lastTweetTime := t2, tweetsPostedToday := tweetsPostedToday a + 2,
              tweetQueue := rest \<rparr>,
           [Posted (entry_text ea) i1, Posted (entry_text eb) i2])) \<and>
     (\<not> truthyId (post1 (entry_text ea)) \<longrightarrow>
        queueTick t1 post1 a = (a, [PostFailed (entry_text ea)]) \<and>
        (\<forall>i2. post2 (entry_text ea) = Some i2 \<and> i2 \<noteq> [] \<longrightarrow>
           run [QueueTimer t1 post1, QueueTimer t2 post2] a =
             (a\<lparr> lastTweetTime := t2, tweetsPostedToday := tweetsPostedToday a + 1,
                 tweetQueue := eb # rest \<rparr>,
              [PostFailed (entry_text ea), Posted (entry_text ea) i2])) \<and>
        (\<not> truthyId (post2 (entry_text ea)) \<longrightarrow>
           run [QueueTimer t1 post1, QueueTimer t2 post2] a =
             (a, [PostFailed (entry_text ea), PostFailed (entry_text ea)]))) \<and>
     length (filter isAttempt (snd (queueTick t1 post1 a))) \<le> 1"
proof (intro conjI allI impI)
  fix i1 i2
  assume h: "post1 (entry_text ea) = Some i1 \<and> i1 \<noteq> [] \<and>
             post2 (entry_text eb) = Some i2 \<and> i2 \<noteq> []"
  let ?a1 = "a\<lparr> lastTweetTime := t1, tweetsPostedToday := tweetsPostedToday a + 1,
                 tweetQueue := eb # rest \<rparr>"
  have s1: "queueTick t1 post1 a = (?a1, [Posted (entry_text ea) i1])"
    using q np t1 h by (intro queueTick_success) auto
  have s2: "queueTick t2 post2 ?a1 =
              (?a1\<lparr> lastTweetTime := t2, tweetsPostedToday := tweetsPostedToday ?a1 + 1,
                    tweetQueue := rest \<rparr>, [Posted (entry_text eb) i2])"
    using h np t2 by (intro queueTick_success) auto
  show "run [QueueTimer t1 post1, QueueTimer t2 post2] a =
          (a\<lparr> lastTweetTime := t2, tweetsPostedToday := tweetsPostedToday a + 2,
              tweetQueue := rest \<rparr>,
           [Posted (entry_text ea) i1, Posted (entry_text eb) i2])"
    using s1 s2 by simp
next
  assume f: "\<not> truthyId (post1 (entry_text ea))"
  show f1: "queueTick t1 post1 a = (a, [PostFailed (entry_text ea)])"
    using q np t1 f by (rule queueTick_fail)
  have t2': "tweetInterval \<le> t2 - lastTweetTime a"
    using t1 t2 by (simp add: tweetInterval_def)
  {
    fix i2
    assume h: "post2 (entry_text ea) = Some i2 \<and> i2 \<noteq> []"
    have s2: "queueTick t2 post2 a =
                (a\<lparr> lastTweetTime := t2, tweetsPostedToday := tweetsPostedToday a + 1,
                    tweetQueue := eb # rest \<rparr>, [Posted (entry_text ea) i2])"
      using q np t2' h by (intro queueTick_success) auto
    show "run [QueueTimer t1 post1, QueueTimer t2 post2] a =
             (a\<lparr> lastTweetTime := t2, tweetsPostedToday := tweetsPostedToday a + 1,
                 tweetQueue := eb # rest \<rparr>,
              [PostFailed (entry_text ea), Posted (entry_text ea) i2])"
      using f1 s2 by simp
  }
  {
    assume f2: "\<not> truthyId (post2 (entry_text ea))"
    have s2: "queueTick t2 post2 a = (a, [PostFailed (entry_text ea)])"
      using q np t2' f2 by (rule queueTick_fail)
    show "run [QueueTimer t1 post1, QueueTimer t2 post2] a =
             (a, [PostFailed (entry_text ea), PostFailed (entry_text ea)])"
      using f1 s2 by simp
  }
next
  show "length (filter isAttempt (snd (queueTick t1 post1 a))) \<le> 1"
    by (rule queueTick_attempts)
qed

text \<open>
  C3.  \<open>postTweet\<close> puts a text behind the texts that wait.  Let the queue be empty and no
  drain in flight, let the text \<open>ta\<close> be enqueued by \<open>postTweet\<close> and then the text
  \<open>tb\<close>, and let two ticks come at least the posting interval after the last post and
  after one another.  Then the queue holds the entry of \<open>ta\<close> before the entry of \<open>tb\<close>.
  If both posts succeed, the first tick posts \<open>ta\<close> and the second \<open>tb\<close>, one post a
  tick.  If the post of \<open>ta\<close> fails, the tick leaves the whole state as it was (the entry
  at the head, the time of the last post, the daily counter), and the second tick tries
  \<open>ta\<close> again, never \<open>tb\<close>.  No tick makes more than one attempt.
\<close>

theorem queue_fifo_and_retry:
  assumes q: "tweetQueue a0 = []" and np: "\<not> processingQueue a0"
    and a: "a = postTweet n2 tb (postTweet n1 ta a0)"
    and t1: "tweetInterval \<le> t1 - lastTweetTime a0" and t2: "tweetInterval \<le> t2 - t1"
  shows
    "tweetQueue a = [\<lparr> entry_text = ta, entry_time = n1 \<rparr>, \<lparr> entry_text = tb, entry_time = n2 \<rparr>] \<and>
     (\<forall>i1 i2. post1 ta = Some i1 \<and> i1 \<noteq> [] \<and> post2 tb = Some i2 \<and> i2 \<noteq> [] \<longrightarrow>
        run [QueueTimer t1 post1, QueueTimer t2 post2] a =
          (a\<lparr> lastTweetTime := t2, tweetsPostedToday := tweetsPostedToday a + 2,
              tweetQueue := [] \<rparr>,
           [Posted ta i1, Posted tb i2])) \<and>
     (\<not> truthyId (post1 ta) \<longrightarrow>
        queueTick t1 post1 a = (a, [PostFailed ta]) \<and>
        (\<forall>i2. post2 ta = Some i2 \<and> i2 \<noteq> [] \<longrightarrow>
           run [QueueTimer t1 post1, QueueTimer t2 post2] a =
             (a\<lparr> lastTweetTime := t2, tweetsPostedToday := tweetsPostedToday a + 1,
                 tweetQueue := [\<lparr> entry_text = tb, entry_time = n2 \<rparr>] \<rparr>,
              [PostFailed ta, Posted ta i2])) \<and>
        (\<not> truthyId (post2 ta) \<longrightarrow>
           run [QueueTimer t1 post1, QueueTimer t2 post2] a =
             (a, [PostFailed ta, PostFailed ta]))) \<and>
     length (filter isAttempt (snd (queueTick t1 post1 a))) \<le> 1 \<and>
     tweetQueue (postTweet n t s) = tweetQueue s @ [\<lparr> entry_text = t, entry_time = n \<rparr>]"
proof -
  let ?ea = "\<lparr> entry_text = ta, entry_time = n1 \<rparr>"
  let ?eb = "\<lparr> entry_text = tb, entry_time = n2 \<rparr>"
  have qa: "tweetQueue a = ?ea # ?eb # []"
    using q a by (simp add: postTweet_enqueues)
  have npa: "\<not> processingQueue a"
    using np a by (simp add: postTweet_enqueues)
  have t1a: "tweetInterval \<le> t1 - lastTweetTime a"
    using t1 a by (simp add: postTweet_enqueues)
  note d = queue_drain_two[where a = a and ea = ?ea and eb = ?eb and rest = "[]"
      and ?t1.0 = t1 and ?t2.0 = t2 and ?post1.0 = post1 and ?post2.0 = post2,
      OF qa npa t1a t2]
  show ?thesis
    using d qa by (simp add: postTweet_enqueues del: run.simps)
qed

text \<open>
  Witness for C3: two texts are enqueued on an empty queue, and ticks come three and six
  hours after the last post.  With two successful posts the log is the post of the first
  text, then of the second; with a failed first post the second tick posts the first text.
\<close>

theorem queue_fifo_and_retry_witness:
  "run [QueueTimer 10800000 (\<lambda>t. Some ''id1''), QueueTimer 21600000 (\<lambda>t. Some ''id2'')]
     (postTweet 2 ''b'' (postTweet 1 ''a''
        \<lparr> tweetsPostedToday = 0, lastTweetTime = 0, recentArticleIds = {}, tweetQueue = [],
          processingQueue = False \<rparr>))
   = (\<lparr> tweetsPostedToday = 2, lastTweetTime = 21600000, recentArticleIds = {},
        tweetQueue = [], processingQueue = False \<rparr>,
      [Posted ''a'' ''id1'', Posted ''b'' ''id2''])
   \<and>
   run [QueueTimer 10800000 (\<lambda>t. None), QueueTimer 21600000 (\<lambda>t. Some ''id2'')]
     (postTweet 2 ''b'' (postTweet 1 ''a''
        \<lparr> tweetsPostedToday = 0, lastTweetTime = 0, recentArticleIds = {}, tweetQueue = [],
          processingQueue = False \<rparr>))
   = (\<lparr> tweetsPostedToday = 1, lastTweetTime = 21600000, recentArticleIds = {},
        tweetQueue = [\<lparr> entry_text = ''b'', entry_time = 2 \<rparr>], processingQueue = False \<rparr>,
      [PostFailed ''a'', Posted ''a'' ''id2''])"
  using queue_fifo_and_retry[where
      ?a0.0 = "\<lparr> tweetsPostedToday = 0, lastTweetTime = 0, recentArticleIds = {},
                tweetQueue = [], processingQueue = False \<rparr>"
      and a = "postTweet 2 ''b'' (postTweet 1 ''a''
                \<lparr> tweetsPostedToday = 0, lastTweetTime = 0, recentArticleIds = {},
                  tweetQueue = [], processingQueue = False \<rparr>)"
      and ?n1.0 = 1 and ?n2.0 = 2 and ta = "''a''" and tb = "''b''"
      and ?t1.0 = 10800000 and ?t2.0 = 21600000
      and ?post1.0 = "\<lambda>t. Some ''id1''" and ?post2.0 = "\<lambda>t. Some ''id2''"]
    queue_fifo_and_retry[where
      ?a0.0 = "\<lparr> tweetsPostedToday = 0, lastTweetTime = 0, recentArticleIds = {},
                tweetQueue = [], processingQueue = False \<rparr>"
      and a = "postTweet 2 ''b'' (postTweet 1 ''a''
                \<lparr> tweetsPostedToday = 0, lastTweetTime = 0, recentArticleIds = {},
                  tweetQueue = [], processingQueue = False \<rparr>)"
      and ?n1.0 = 1 and ?n2.0 = 2 and ta = "''a''" and tb = "''b''"
      and ?t1.0 = 10800000 and ?t2.0 = 21600000
      and ?post1.0 = "\<lambda>t. None" and ?post2.0 = "\<lambda>t. Some ''id2''"]
  by (simp add: tweetInterval_def truthyId_def queueTick_def postTweet_def)

section \<open>Verification: a tweetable article\<close>

lemma countMatches_filter:
  "countMatches s ts = length (filter (str_includes s) (map toLowerCase ts))"
  by (induction ts) auto

lemma lower_noveltyTerms: "map toLowerCase noveltyTerms = noveltyTerms"
  by code_simp

lemma lower_impactTerms: "map toLowerCase impactTerms = impactTerms"
  by code_simp

lemma lower_methodologyTerms: "map toLowerCase methodologyTerms = methodologyTerms"
  by code_simp

lemma lower_relevanceTerms: "map toLowerCase relevanceTerms = relevanceTerms"
  by code_simp

lemma lower_redFlagTerms: "map toLowerCase redFlagTerms = redFlagTerms"
  by code_simp

lemma lower_avoidTopics: "map toLowerCase avoidTopics = avoidTopics"
  by code_simp

lemma strong_ratingText:
  "ratingText strongArticle (fetchFullArticleContent strongArticle) = strongText"
  by code_simp

lemma strong_novelty: "countMatches strongText noveltyTerms = 11"
  unfolding countMatches_filter lower_noveltyTerms
  by (simp add: noveltyTerms_def strongText_def strongAbstract_def)

lemma strong_impact: "countMatches strongText impactTerms = 14"
  unfolding countMatches_filter lower_impactTerms
  by (simp add: impactTerms_def strongText_def strongAbstract_def)

lemma strong_methodology: "countMatches strongText methodologyTerms = 12"
  unfolding countMatches_filter lower_methodologyTerms
  by (simp add: methodologyTerms_def strongText_def strongAbstract_def)

lemma strong_relevance: "countMatches strongText relevanceTerms = 1"
  unfolding countMatches_filter lower_relevanceTerms
  by (simp add: relevanceTerms_def strongText_def strongAbstract_def)

lemma strong_redFlag: "countMatches strongText redFlagTerms = 0"
  unfolding countMatches_filter lower_redFlagTerms
  by (simp add: redFlagTerms_def strongText_def strongAbstract_def)

lemma strong_controversy: "countMatches strongText avoidTopics = 0"
  unfolding countMatches_filter lower_avoidTopics
  by (simp add: avoidTopics_def strongText_def strongAbstract_def)

lemma term_list_lengths:
  "length noveltyTerms = 11" "length impactTerms = 14" "length methodologyTerms = 12"
  "length relevanceTerms = 14" "length redFlagTerms = 11" "length avoidTopics = 11"
  by (simp_all add: noveltyTerms_def impactTerms_def methodologyTerms_def relevanceTerms_def
      redFlagTerms_def avoidTopics_def)

lemma strong_tweetable:
  "tweetable (rateArticle strongArticle (fetchFullArticleContent strongArticle))"
  by (simp add: rateArticle_def Let_def strong_ratingText scoreTermsPresence_def
      strong_novelty strong_impact strong_methodology strong_relevance strong_redFlag
      strong_controversy term_list_lengths jdivCount_def jmul_def
      weightedScore_def jadd_def jsub_def mathMax_def mathMin_def minScoreToTweet_def)

section \<open>Verification: the daily cap\<close>

lemma discoveryTick_at_cap:
  "maxDailyTweets \<le> tweetsPostedToday a \<Longrightarrow>
     discoveryTick summary search now topics ivs a = (a, [])"
  by (simp add: discoveryTick_def)

lemma queueTick_counter_mono:
  "tweetsPostedToday a \<le> tweetsPostedToday (fst (queueTick now post a))"
  by (auto simp: queueTick_def Let_def truthyId_def split: list.splits option.splits)

lemma queueTick_no_discovery:
  "filter isDiscoveryEvent (snd (queueTick now post a)) = []"
  by (auto simp: queueTick_def Let_def truthyId_def split: list.splits option.splits)

lemma queueTick_ignores_counter:
  "queueTick now post (a\<lparr> tweetsPostedToday := n \<rparr>) =
     (case queueTick now post a of
        (a', evs) \<Rightarrow>
          (a'\<lparr> tweetsPostedToday := n + (tweetsPostedToday a' - tweetsPostedToday a) \<rparr>, evs))"
  by (auto simp: queueTick_def Let_def truthyId_def split: list.splits option.splits)

lemma run_at_cap:
  "maxDailyTweets \<le> tweetsPostedToday a \<Longrightarrow> ResetTimer \<notin> set ts \<Longrightarrow>
     filter isDiscoveryEvent (snd (run ts a)) = [] \<and>
     maxDailyTweets \<le> tweetsPostedToday (fst (run ts a))"
proof (induction ts arbitrary: a)
  case Nil
  then show ?case by simp
next
  case (Cons t ts)
  obtain a' evs where f: "fire t a = (a', evs)" by (cases "fire t a")
  have step: "filter isDiscoveryEvent evs = [] \<and> maxDailyTweets \<le> tweetsPostedToday a'"
  proof (cases t)
    case (DiscoveryTimer summary search now topics ivs)
    then show ?thesis using f Cons.prems(1) by (simp add: discoveryTick_at_cap)
  next
    case (QueueTimer now post)
    then show ?thesis
      using f Cons.prems(1) queueTick_counter_mono[of a now post]
        queueTick_no_discovery[of now post a]
      by auto
  next
    case ResetTimer
    then show ?thesis using Cons.prems(2) by simp
  qed
  obtain a'' evs' where r: "run ts a' = (a'', evs')" by (cases "run ts a'")
  have "filter isDiscoveryEvent evs' = [] \<and> maxDailyTweets \<le> tweetsPostedToday a''"
    using Cons.IH[of a'] step Cons.prems(2) r by simp
  then show ?case using f r step by simp
qed

text \<open>
  A pass in flight: the counter is below the cap when the discovery timer fires, and while
  the pass waits for its search the queue timer posts the text that waits.  The pass goes
  on: it rates the article it finds and queues its summary.
\<close>

lemma discovery_pass_interrupted:
  assumes "tweetsPostedToday a < maxDailyTweets"
    and "article_id x \<notin> recentArticleIds a"
    and "tweetable (rateArticle x (fetchFullArticleContent x))"
    and "tweetQueue a = [e]" and "\<not> processingQueue a"
    and "tweetInterval \<le> t - lastTweetTime a"
    and "post (entry_text e) = Some i" and "i \<noteq> []"
  shows "discoveryTick summary (\<lambda>topic. [x]) now [topic] [[QueueFires t post]] a =
           (a\<lparr> tweetsPostedToday := tweetsPostedToday a + 2, lastTweetTime := now,
               recentArticleIds := insert (article_id x) (recentArticleIds a),
               tweetQueue := [\<lparr> entry_text = summary x (fetchFullArticleContent x),
                                entry_time = now \<rparr>] \<rparr>,
            [Posted (entry_text e) i, Rated (article_id x) True,
             Enqueued (summary x (fetchFullArticleContent x))])"
  using assms
  by (simp add: discoveryTick_def findAndTweetTopArticle_def postTweet_def Let_def
      queueTick_def truthyId_def)

text \<open>
  C4, as amended.  When the daily counter has reached the cap of five at the moment the
  discovery timer fires, that pass does nothing: no article is rated and nothing is queued,
  whatever the candidates are and whatever fires meanwhile.  This stays so for every
  sequence of discovery and queue timers that follows, until the daily reset: the log holds
  no rating and no enqueueing, and the counter stays at or above the cap.  The cap is tested
  by the discovery timer only, once, when it fires: the queue timer does the same whatever
  the counter is.
\<close>

theorem discovery_stops_at_cap:
  assumes "maxDailyTweets \<le> tweetsPostedToday a" and "ResetTimer \<notin> set ts"
  shows "discoveryTick summary search now topics ivs a = (a, []) \<and>
         filter isDiscoveryEvent (snd (run ts a)) = [] \<and>
         maxDailyTweets \<le> tweetsPostedToday (fst (run ts a)) \<and>
         queueTick tick post (a\<lparr> tweetsPostedToday := n \<rparr>) =
           (case queueTick tick post a of
              (a', evs) \<Rightarrow>
                (a'\<lparr> tweetsPostedToday := n + (tweetsPostedToday a' - tweetsPostedToday a) \<rparr>,
                 evs))"
  using assms discoveryTick_at_cap run_at_cap queueTick_ignores_counter by blast

text \<open>
  Witness for C4: the counter is at five and a text waits in the queue.  A discovery timer
  that would find the strong article rates and queues nothing; the queue timer that follows
  still posts the waiting text, and the counter goes to six.
\<close>

theorem discovery_stops_at_cap_witness:
  "maxDailyTweets \<le> 5 \<and>
   run [DiscoveryTimer (\<lambda>article content. ''summary'') (\<lambda>topic. [strongArticle]) 0 [''vaccine'']
          [],
        QueueTimer 10800000 (\<lambda>t. Some ''id1'')]
     \<lparr> tweetsPostedToday = 5, lastTweetTime = 0, recentArticleIds = {},
       tweetQueue = [\<lparr> entry_text = ''waiting'', entry_time = 0 \<rparr>],
       processingQueue = False \<rparr>
   = (\<lparr> tweetsPostedToday = 6, lastTweetTime = 10800000, recentArticleIds = {},
        tweetQueue = [], processingQueue = False \<rparr>,
      [Posted ''waiting'' ''id1''])"
  using discovery_stops_at_cap[where
      a = "\<lparr> tweetsPostedToday = 5, lastTweetTime = 0, recentArticleIds = {},
            tweetQueue = [\<lparr> entry_text = ''waiting'', entry_time = 0 \<rparr>],
            processingQueue = False \<rparr>"
      and ts = "[DiscoveryTimer (\<lambda>article content. ''summary'') (\<lambda>topic. [strongArticle]) 0
                   [''vaccine''] [],
                 QueueTimer 10800000 (\<lambda>t. Some ''id1'')]"
      and summary = "\<lambda>article content. ''summary''" and search = "\<lambda>topic. [strongArticle]"
      and now = 0 and topics = "[''vaccine'']" and ivs = "[]" and tick = 10800000
      and post = "\<lambda>t. Some ''id1''" and n = 5]
  by (simp add: maxDailyTweets_def tweetInterval_def truthyId_def queueTick_def)

text \<open>
  Counterexample to C4 as stated.  The counter is at four when the discovery timer fires, so
  the pass starts.  While it waits for its search, the queue timer posts the waiting text
  and the counter reaches the cap of five.  The pass is not stopped: it rates the strong
  article and queues its summary, and the counter goes to six.
\<close>

theorem discovery_in_flight_counterexample:
  "maxDailyTweets \<le>
     tweetsPostedToday (fst (queueTick 10800000 (\<lambda>t. Some ''id1'')
       \<lparr> tweetsPostedToday = 4, lastTweetTime = 0, recentArticleIds = {},
         tweetQueue = [\<lparr> entry_text = ''waiting'', entry_time = 0 \<rparr>],
         processingQueue = False \<rparr>)) \<and>
   discoveryTick (\<lambda>article content. ''summary'') (\<lambda>topic. [strongArticle]) 10800001
       [''vaccine''] [[QueueFires 10800000 (\<lambda>t. Some ''id1'')]]
     \<lparr> tweetsPostedToday = 4, lastTweetTime = 0, recentArticleIds = {},
       tweetQueue = [\<lparr> entry_text = ''waiting'', entry_time = 0 \<rparr>],
       processingQueue = False \<rparr>
   = (\<lparr> tweetsPostedToday = 6, lastTweetTime = 10800001, recentArticleIds = {''101''},
        tweetQueue = [\<lparr> entry_text = ''summary'', entry_time = 10800001 \<rparr>],
        processingQueue = False \<rparr>,
      [Posted ''waiting'' ''id1'', Rated ''101'' True, Enqueued ''summary''])"
proof -
  have sid: "article_id strongArticle = ''101''"
    by (simp add: strongArticle_def)
  let ?a = "\<lparr> tweetsPostedToday = 4, lastTweetTime = 0, recentArticleIds = {},
             tweetQueue = [\<lparr> entry_text = ''waiting'', entry_time = 0 \<rparr>],
             processingQueue = False \<rparr>"
  have "discoveryTick (\<lambda>article content. ''summary'') (\<lambda>topic. [strongArticle]) 10800001
          [''vaccine''] [[QueueFires 10800000 (\<lambda>t. Some ''id1'')]] ?a
        = (?a\<lparr> tweetsPostedToday := 4 + 2, lastTweetTime := 10800001,
               recentArticleIds := insert (article_id strongArticle) {},
               tweetQueue := [\<lparr> entry_text = ''summary'', entry_time = 10800001 \<rparr>] \<rparr>,
           [Posted ''waiting'' ''id1'', Rated (article_id strongArticle) True,
            Enqueued ''summary''])"
    using discovery_pass_interrupted[where x = strongArticle and a = ?a
        and e = "\<lparr> entry_text = ''waiting'', entry_time = 0 \<rparr>"
        and post = "\<lambda>t. Some ''id1''" and summary = "\<lambda>article content. ''summary''"
        and i = "''id1''" and t = 10800000 and now = 10800001 and topic = "''vaccine''"]
      strong_tweetable
    by (simp add: maxDailyTweets_def tweetInterval_def sid)
  moreover have "maxDailyTweets \<le> tweetsPostedToday (fst (queueTick 10800000 (\<lambda>t. Some ''id1'') ?a))"
    by (simp add: maxDailyTweets_def tweetInterval_def queueTick_def truthyId_def)
  ultimately show ?thesis
    by (simp add: sid)
qed

section \<open>Verification: the payoff sentence\<close>

text \<open>
  C6, at the failing input.  The text has two sentences and the first holds the keyword
  "show".  The base class selects the first sentence; the override that the Twitter agent
  uses tests three keywords only, finds none, and selects the last sentence.
\<close>

theorem twitter_payoff_misses_keywords:
  "base_mainPoint \<lparr> content_id = ''1'', fullText = ''We show gains. Later work follows'' \<rparr>
     = Some ''We show gains'' \<and>
   twitter_mainPoint \<lparr> content_id = ''1'', fullText = ''We show gains. Later work follows'' \<rparr>
     = Some ''Later work follows''"
  by code_simp

section \<open>Verification: topic enthusiasm\<close>

text \<open>
  C9, at the failing input.  The topic is a key of the table and 0 is stored under it; the
  truthiness test skips the entry and the loop returns the value of an earlier entry whose
  key is part of the topic.
\<close>

theorem enthusiasm_zero_skipped:
  "map_of [(''neuro'', 9), (''neuroscience'', 0 :: real)] ''neuroscience'' = Some 0 \<and>
   getTopicEnthusiasm [(''neuro'', 9), (''neuroscience'', 0)] ''neuroscience'' = 9"
  by (simp add: getTopicEnthusiasm_def)

section \<open>Verification: the daily counter across discovery and queue\<close>

text \<open>
  One article through the pipeline, with nothing firing during the discovery pass: the
  discovery timer finds the article, queues its summary and increments the counter; the
  queue timer posts the summary and increments the counter again.
\<close>

lemma discovery_then_drain:
  assumes "article_id x \<notin> recentArticleIds a"
    and "tweetable (rateArticle x (fetchFullArticleContent x))"
    and "tweetsPostedToday a < maxDailyTweets"
    and "tweetQueue a = []" and "\<not> processingQueue a"
    and "post (summary x (fetchFullArticleContent x)) = Some i" and "i \<noteq> []"
    and "tweetInterval \<le> t2 - t1"
  shows "run [DiscoveryTimer summary (\<lambda>topic. [x]) t1 [topic] [], QueueTimer t2 post] a =
           (a\<lparr> tweetsPostedToday := tweetsPostedToday a + 2, lastTweetTime := t2,
               recentArticleIds := insert (article_id x) (recentArticleIds a) \<rparr>,
            [Rated (article_id x) True, Enqueued (summary x (fetchFullArticleContent x)),
             Posted (summary x (fetchFullArticleContent x)) i])"
  using assms
  by (simp add: discoveryTick_def findAndTweetTopArticle_def postTweet_def Let_def
      queueTick_def truthyId_def)

text \<open>
  C10, at the failing input.  From the initial state the discovery timer finds the strong
  article, and three hours later the queue timer posts its summary: the log holds one
  successful post, and the daily counter is 2.
\<close>

theorem counter_counts_twice:
  "run [DiscoveryTimer (\<lambda>article content. ''summary'') (\<lambda>topic. [strongArticle]) 0
          [''vaccine''] [],
        QueueTimer 10800000 (\<lambda>t. Some ''id1'')]
     \<lparr> tweetsPostedToday = 0, lastTweetTime = 0, recentArticleIds = {}, tweetQueue = [],
       processingQueue = False \<rparr>
   = (\<lparr> tweetsPostedToday = 2, lastTweetTime = 10800000, recentArticleIds = {''101''},
        tweetQueue = [], processingQueue = False \<rparr>,
      [Rated ''101'' True, Enqueued ''summary'', Posted ''summary'' ''id1''])"
proof -
  have sid: "article_id strongArticle = ''101''"
    by (simp add: strongArticle_def)
  have "run [DiscoveryTimer (\<lambda>article content. ''summary'') (\<lambda>topic. [strongArticle]) 0
               [''vaccine''] [],
             QueueTimer 10800000 (\<lambda>t. Some ''id1'')]
          \<lparr> tweetsPostedToday = 0, lastTweetTime = 0, recentArticleIds = {}, tweetQueue = [],
            processingQueue = False \<rparr>
        = (\<lparr> tweetsPostedToday = 0, lastTweetTime = 0, recentArticleIds = {}, tweetQueue = [],
             processingQueue = False \<rparr>
           \<lparr> tweetsPostedToday := 0 + 2, lastTweetTime := 10800000,
             recentArticleIds := insert (article_id strongArticle) {} \<rparr>,
           [Rated (article_id strongArticle) True, Enqueued ''summary'',
            Posted ''summary'' ''id1''])"
    using discovery_then_drain[where x = strongArticle
        and a = "\<lparr> tweetsPostedToday = 0, lastTweetTime = 0, recentArticleIds = {},
                  tweetQueue = [], processingQueue = False \<rparr>"
        and post = "\<lambda>t. Some ''id1''" and summary = "\<lambda>article content. ''summary''"
        and i = "''id1''" and ?t1.0 = 0 and ?t2.0 = 10800000 and topic = "''vaccine''"]
      strong_tweetable
    by (simp add: maxDailyTweets_def tweetInterval_def sid)
  then show ?thesis
    by (simp add: sid)
qed

section \<open>Verification: phrase rotation\<close>

lemma freshWithin_nth:
  "freshWithin h xs \<Longrightarrow> i < j \<Longrightarrow> j < length xs \<Longrightarrow> j - i \<le> h \<Longrightarrow> xs ! i \<noteq> xs ! j"
proof (induction xs arbitrary: i j)
  case Nil
  then show ?case by simp
next
  case (Cons x xs)
  show ?case
  proof (cases i)
    case 0
    then obtain k where k: "j = Suc k" using Cons.prems(2) by (cases j) auto
    have "k < length (take h xs)" using Cons.prems 0 k by simp
    then have "xs ! k \<in> set (take h xs)"
      by (metis nth_mem nth_take length_take min_less_iff_conj)
    then show ?thesis using Cons.prems(1) 0 k by auto
  next
    case (Suc i')
    then obtain k where k: "j = Suc k" using Cons.prems(2) by (cases j) auto
    show ?thesis using Cons.IH[of i' k] Cons.prems Suc k by simp
  qed
qed

lemma freshWithin_append: "freshWithin h (xs @ ys) \<Longrightarrow> freshWithin h ys"
  by (induction xs) auto

lemma drawPhrase_eq:
  "drawPhrase rnd phrases l =
     (let covered = (set phrases \<subseteq> set l);
          avail = (if covered then phrases else filter (\<lambda>p. p \<notin> set l) phrases);
          sel = avail ! (rnd mod length avail)
      in (sel, evictOldest (length phrases) (setAdd (if covered then [] else l) sel)))"
proof -
  have c: "(filter (\<lambda>p. p \<notin> set l) phrases = []) = (set phrases \<subseteq> set l)"
    by (auto simp: filter_empty_conv)
  have e: "\<And>xs::string list. (real (length phrases) / 2 < real (length xs)) = (length phrases < 2 * length xs)"
    by (simp add: field_simps) linarith
  show ?thesis
    by (simp add: drawPhrase_def Let_def c e evictOldest_def)
qed

lemma drawPhrase_fresh:
  assumes d: "distinct phrases" and ne: "phrases \<noteq> []"
    and inv: "distinct l" "set l \<subseteq> set phrases" "2 * length l \<le> length phrases"
  shows "fst (drawPhrase rnd phrases l) \<in> set phrases"
    and "fst (drawPhrase rnd phrases l) \<notin> set l"
    and "snd (drawPhrase rnd phrases l) =
           evictOldest (length phrases) (l @ [fst (drawPhrase rnd phrases l)])"
proof -
  have "0 < length phrases" using ne by simp
  then have "length l < length phrases" using inv(3) by linarith
  then have "card (set l) < card (set phrases)"
    using d inv(1) by (simp add: distinct_card)
  then have nc: "\<not> set phrases \<subseteq> set l"
    by (metis List.finite_set card_mono not_less)
  let ?av = "filter (\<lambda>p. p \<notin> set l) phrases"
  have av: "?av \<noteq> []" using nc by (auto simp: filter_empty_conv)
  let ?sel = "?av ! (rnd mod length ?av)"
  have "?sel \<in> set ?av" using av by (intro nth_mem) simp
  then have s: "?sel \<in> set phrases" "?sel \<notin> set l" by auto
  have f: "fst (drawPhrase rnd phrases l) = ?sel"
    using nc by (simp add: drawPhrase_eq Let_def)
  show "fst (drawPhrase rnd phrases l) \<in> set phrases" using f s by simp
  show "fst (drawPhrase rnd phrases l) \<notin> set l" using f s by simp
  show "snd (drawPhrase rnd phrases l) =
           evictOldest (length phrases) (l @ [fst (drawPhrase rnd phrases l)])"
    using nc s by (simp add: drawPhrase_eq Let_def setAdd_def)
qed


lemma evictOldest_inv:
  assumes "distinct l" "set l \<subseteq> set phrases" "2 * length l \<le> length phrases"
    and "p \<in> set phrases" "p \<notin> set l"
  shows "distinct (evictOldest (length phrases) (l @ [p]))"
    and "set (evictOldest (length phrases) (l @ [p])) \<subseteq> set phrases"
    and "2 * length (evictOldest (length phrases) (l @ [p])) \<le> length phrases"
proof -
  have sub: "set (tl (l @ [p])) \<subseteq> set (l @ [p])"
    by (cases l) auto
  show "distinct (evictOldest (length phrases) (l @ [p]))"
    using assms by (auto simp: evictOldest_def distinct_tl)
  show "set (evictOldest (length phrases) (l @ [p])) \<subseteq> set phrases"
    using assms sub by (auto simp: evictOldest_def)
  show "2 * length (evictOldest (length phrases) (l @ [p])) \<le> length phrases"
    using assms by (auto simp: evictOldest_def)
qed

lemma getPhrase_draw:
  assumes "vocabulary category = Some phrases" "phrases \<noteq> []"
  shows "getPhrase rnd vocabulary category st =
           (fst (drawPhrase rnd phrases (currentUsed st category)),
            st(category \<mapsto> snd (drawPhrase rnd phrases (currentUsed st category))))"
  using assms by (simp add: getPhrase_def currentUsed_def split: prod.splits)

lemma getPhrases_fresh:
  assumes v: "vocabulary category = Some phrases" and d: "distinct phrases" and ne: "phrases \<noteq> []"
  shows "distinct (currentUsed st category) \<Longrightarrow>
         set (currentUsed st category) \<subseteq> set phrases \<Longrightarrow>
         2 * length (currentUsed st category) \<le> length phrases \<Longrightarrow>
         freshWithin (length phrases div 2) (currentUsed st category @ fst (getPhrases rnds vocabulary category st)) \<and>
         set (fst (getPhrases rnds vocabulary category st)) \<subseteq> set phrases \<and>
         length (fst (getPhrases rnds vocabulary category st)) = length rnds \<and>
         distinct (currentUsed (snd (getPhrases rnds vocabulary category st)) category) \<and>
         set (currentUsed (snd (getPhrases rnds vocabulary category st)) category) \<subseteq> set phrases \<and>
         2 * length (currentUsed (snd (getPhrases rnds vocabulary category st)) category)
           \<le> length phrases"
proof (induction rnds arbitrary: st)
  case Nil
  have "freshWithin (length phrases div 2) l" if "distinct l" for l :: "string list"
    using that by (induction l) (auto dest: in_set_takeD)
  then show ?case using Nil by simp
next
  case (Cons r rnds)
  let ?l = "currentUsed st category"
  let ?h = "length phrases div 2"
  let ?p = "fst (drawPhrase r phrases ?l)"
  let ?l1 = "evictOldest (length phrases) (?l @ [?p])"
  let ?st1 = "st(category \<mapsto> ?l1)"
  have p: "?p \<in> set phrases" "?p \<notin> set ?l"
    and l1: "snd (drawPhrase r phrases ?l) = ?l1"
    using drawPhrase_fresh[OF d ne Cons.prems] by auto
  have g: "getPhrase r vocabulary category st = (?p, ?st1)"
    using getPhrase_draw[where vocabulary = vocabulary and category = category and phrases = phrases and rnd = r and st = st] v ne l1 by simp
  have cur1: "currentUsed ?st1 category = ?l1" by (simp add: currentUsed_def)
  note inv1 = evictOldest_inv[OF Cons.prems p]
  let ?ps = "fst (getPhrases rnds vocabulary category ?st1)"
  let ?fin = "currentUsed (snd (getPhrases rnds vocabulary category ?st1)) category"
  have ih0: "freshWithin ?h (currentUsed ?st1 category @ ?ps) \<and>
             set ?ps \<subseteq> set phrases \<and> length ?ps = length rnds \<and>
             distinct ?fin \<and> set ?fin \<subseteq> set phrases \<and> 2 * length ?fin \<le> length phrases"
    by (rule Cons.IH[of ?st1]) (simp_all only: cur1 inv1)
  have ih: "freshWithin ?h (?l1 @ ?ps)" "set ?ps \<subseteq> set phrases" "length ?ps = length rnds"
    using ih0 by (simp_all only: cur1)
  have fin: "distinct ?fin \<and> set ?fin \<subseteq> set phrases \<and> 2 * length ?fin \<le> length phrases"
    using ih0 by blast
  have out2: "snd (getPhrases (r # rnds) vocabulary category st) =
                snd (getPhrases rnds vocabulary category ?st1)"
    using g by (simp split: prod.splits)
  have out: "fst (getPhrases (r # rnds) vocabulary category st) = ?p # ?ps"
    using g by (simp split: prod.splits)
  have "freshWithin ?h (?l @ ?p # ?ps)"
  proof (cases "length phrases < 2 * length (?l @ [?p])")
    case False
    then have "?l1 = ?l @ [?p]" by (simp add: evictOldest_def)
    then show ?thesis using ih(1) by simp
  next
    case True
    then have len: "length ?l = ?h" using Cons.prems(3) by simp
    show ?thesis
    proof (cases "?l = []")
      case True
      then have "?l1 = []" using \<open>length phrases < 2 * length (?l @ [?p])\<close>
        by (simp add: evictOldest_def)
      moreover have "?h = 0" using len True by simp
      ultimately show ?thesis using ih(1) True by simp
    next
      case False
      then obtain x l' where lx: "?l = x # l'" by (cases ?l) auto
      have e: "?l1 = l' @ [?p]"
        using \<open>length phrases < 2 * length (?l @ [?p])\<close> lx by (simp add: evictOldest_def)
      have "?h - length l' = Suc 0" using len lx by simp
      then have "take ?h (l' @ ?p # ?ps) = l' @ [?p]" by simp
      moreover have "x \<notin> set l'" "x \<noteq> ?p" using Cons.prems(1) p(2) lx by auto
      ultimately show ?thesis using ih(1) e lx by simp
    qed
  qed
  then show ?case using out out2 fin ih p by simp
qed


text \<open>
  C7, as amended.  Let a category have \<open>N\<close> distinct phrases, and let its recently used
  set be one that draws can leave behind (no repetition, phrases of the category, at most
  half of \<open>N\<close> entries; the empty set at start is one).  Then in every sequence of
  consecutive draws, for any random outcomes, two draws at most \<open>N div 2\<close> apart return
  different phrases: any \<open>N div 2 + 1\<close> consecutive draws are pairwise different.  Every
  draw returns a phrase of the category and leaves such a set behind.  One draw, from any
  set: the set is cleared exactly when it holds every phrase of the category; the phrase is
  drawn among those outside the set (all of them after a clear); it is added to the set, and
  the oldest entry is removed if the set then has more than \<open>N / 2\<close> entries.
\<close>

theorem phrase_rotation_window:
  assumes "vocabulary category = Some phrases" and "distinct phrases" and "phrases \<noteq> []"
    and "distinct (currentUsed st category)"
    and "set (currentUsed st category) \<subseteq> set phrases"
    and "2 * length (currentUsed st category) \<le> length phrases"
  shows
    "(\<forall>i j. i < j \<and> j < length rnds \<and> j - i \<le> length phrases div 2 \<longrightarrow>
        fst (getPhrases rnds vocabulary category st) ! i
          \<noteq> fst (getPhrases rnds vocabulary category st) ! j) \<and>
     length (fst (getPhrases rnds vocabulary category st)) = length rnds \<and>
     set (fst (getPhrases rnds vocabulary category st)) \<subseteq> set phrases \<and>
     distinct (currentUsed (snd (getPhrases rnds vocabulary category st)) category) \<and>
     set (currentUsed (snd (getPhrases rnds vocabulary category st)) category) \<subseteq> set phrases \<and>
     2 * length (currentUsed (snd (getPhrases rnds vocabulary category st)) category)
       \<le> length phrases \<and>
     drawPhrase rnd phrases l =
       (let covered = (set phrases \<subseteq> set l);
            avail = (if covered then phrases else filter (\<lambda>p. p \<notin> set l) phrases);
            sel = avail ! (rnd mod length avail)
        in (sel, evictOldest (length phrases) (setAdd (if covered then [] else l) sel)))"
proof -
  let ?ps = "fst (getPhrases rnds vocabulary category st)"
  note f = getPhrases_fresh[where vocabulary = vocabulary and category = category
      and phrases = phrases and st = st and rnds = rnds, OF assms]
  have fw: "freshWithin (length phrases div 2) ?ps"
    using f freshWithin_append by blast
  have "\<forall>i j. i < j \<and> j < length rnds \<and> j - i \<le> length phrases div 2 \<longrightarrow> ?ps ! i \<noteq> ?ps ! j"
    using freshWithin_nth[OF fw] f by auto
  then show ?thesis using f drawPhrase_eq[of rnd phrases l] by blast
qed

lemma draw_evals:
  "drawPhrase 0 [''a'', ''b'', ''c'', ''d'', ''e''] [] = (''a'', [''a''])"
  "drawPhrase 0 [''a'', ''b'', ''c'', ''d'', ''e''] [''a''] = (''b'', [''a'', ''b''])"
  "drawPhrase 0 [''a'', ''b'', ''c'', ''d'', ''e''] [''a'', ''b''] = (''c'', [''b'', ''c''])"
  "drawPhrase 0 [''a'', ''b'', ''c'', ''d'', ''e''] [''b'', ''c''] = (''a'', [''c'', ''a''])"
  by (simp_all add: drawPhrase_def setAdd_def Let_def)

lemma getPhrase_greetings:
  "getPhrase rnd greetingsVocabulary ''greetings'' st =
     (fst (drawPhrase rnd [''a'', ''b'', ''c'', ''d'', ''e'']
             (case st ''greetings'' of None \<Rightarrow> [] | Some l \<Rightarrow> l)),
      st(''greetings'' \<mapsto> snd (drawPhrase rnd [''a'', ''b'', ''c'', ''d'', ''e'']
             (case st ''greetings'' of None \<Rightarrow> [] | Some l \<Rightarrow> l))))"
  by (simp add: getPhrase_def greetingsVocabulary_def split: prod.splits)

lemma three_draws:
  "fst (getPhrases [0, 0, 0] greetingsVocabulary ''greetings'' Map.empty) = [''a'', ''b'', ''c'']"
  by (simp add: getPhrase_greetings draw_evals)

text \<open>
  Witness for C7: five phrases, so draws at most two apart differ.  Three draws from the
  empty set, each taking the first phrase available, return a, b, c; the first and the third
  differ.
\<close>

theorem phrase_rotation_window_witness:
  "fst (getPhrases [0, 0, 0] greetingsVocabulary ''greetings'' Map.empty) = [''a'', ''b'', ''c''] \<and>
   fst (getPhrases [0, 0, 0] greetingsVocabulary ''greetings'' Map.empty) ! 0
     \<noteq> fst (getPhrases [0, 0, 0] greetingsVocabulary ''greetings'' Map.empty) ! 2"
proof -
  let ?ps = "fst (getPhrases [0, 0, 0] greetingsVocabulary ''greetings'' Map.empty)"
  have "\<forall>i j. i < j \<and> j < length [0, 0, 0 :: nat] \<and>
           j - i \<le> length [''a'', ''b'', ''c'', ''d'', ''e''] div 2 \<longrightarrow> ?ps ! i \<noteq> ?ps ! j"
    using phrase_rotation_window[where vocabulary = greetingsVocabulary
        and category = "''greetings''" and phrases = "[''a'', ''b'', ''c'', ''d'', ''e'']"
        and st = Map.empty and rnds = "[0, 0, 0]"]
    by (simp add: currentUsed_def greetingsVocabulary_def)
  then have "(0::nat) < 2 \<and> 2 < length [0, 0, 0 :: nat] \<and>
        2 - 0 \<le> length [''a'', ''b'', ''c'', ''d'', ''e''] div 2 \<longrightarrow> ?ps ! 0 \<noteq> ?ps ! 2"
    by blast
  then have "?ps ! 0 \<noteq> ?ps ! 2" by simp
  then show ?thesis using three_draws by simp
qed

text \<open>
  Counterexample to C7 as stated: five phrases and four draws, fewer than five.  The fourth
  draw returns the phrase of the first again, while two phrases have not been drawn: after
  the third draw the set holds three entries, more than 5 / 2, and the oldest one is removed.
\<close>

theorem phrase_rotation_counterexample:
  "fst (getPhrases [0, 0, 0, 0] greetingsVocabulary ''greetings'' Map.empty)
     = [''a'', ''b'', ''c'', ''a''] \<and>
   length [0, 0, 0, 0 :: nat] < length [''a'', ''b'', ''c'', ''d'', ''e'']"
  by (simp add: getPhrase_greetings draw_evals)

section \<open>Verification: mention routing\<close>

lemma step_elem:
  "m \<in> set (step P st) \<Longrightarrow> \<exists>x. snd st = x # snd m \<and> P x \<and> fst m = Some x"
  by (cases st; cases "snd st") (auto split: if_splits)

lemma repeatN_Digit:
  "m \<in> set (matches ic (repeatN n Digit) st) \<Longrightarrow>
     \<exists>w. snd st = w @ snd m \<and> length w = n \<and> list_all isDigit w \<and> fst m = prevChar (fst st) w"
proof (induction n arbitrary: st)
  case 0
  then show ?case by (simp add: prevChar_def)
next
  case (Suc n)
  then obtain st1 where s1: "st1 \<in> set (step isDigit st)"
    and m: "m \<in> set (matches ic (repeatN n Digit) st1)"
    by auto
  obtain x where x: "snd st = x # snd st1" "isDigit x" "fst st1 = Some x"
    using step_elem[OF s1] by blast
  obtain w where w: "snd st1 = w @ snd m" "length w = n" "list_all isDigit w"
    "fst m = prevChar (fst st1) w"
    using Suc.IH[OF m] by blast
  show ?case
    by (rule exI[of _ "x # w"]) (use x w in \<open>simp add: prevChar_def\<close>)
qed

lemma uptoN_Digit:
  "m \<in> set (matches ic (uptoN n Digit) st) \<Longrightarrow>
     \<exists>w. snd st = w @ snd m \<and> length w \<le> n \<and> list_all isDigit w \<and> fst m = prevChar (fst st) w"
proof (induction n arbitrary: st)
  case 0
  then show ?case by (simp add: prevChar_def)
next
  case (Suc n)
  then consider (more) st1 where "st1 \<in> set (step isDigit st)"
      "m \<in> set (matches ic (uptoN n Digit) st1)"
    | (stop) "m = st"
    by auto
  then show ?case
  proof cases
    case more
    obtain x where x: "snd st = x # snd st1" "isDigit x" "fst st1 = Some x"
      using step_elem[OF more(1)] by blast
    obtain w where w: "snd st1 = w @ snd m" "length w \<le> n" "list_all isDigit w"
      "fst m = prevChar (fst st1) w"
      using Suc.IH[OF more(2)] by blast
    show ?thesis
      by (rule exI[of _ "x # w"]) (use x w in \<open>simp add: prevChar_def\<close>)
  next
    case stop
    then show ?thesis by (intro exI[of _ "[]"]) (simp add: prevChar_def)
  qed
qed

lemma isDigit_isWordChar: "isDigit c \<Longrightarrow> isWordChar c"
  by (auto simp: isDigit_def isWordChar_def)

lemma rePmid_consumes:
  assumes "m \<in> set (matches ic rePmid (p, s))"
  shows "\<exists>w. s = w @ snd m \<and> 5 \<le> length w \<and> length w \<le> 10 \<and> list_all isDigit w \<and>
             (case p of None \<Rightarrow> True | Some c \<Rightarrow> \<not> isWordChar c) \<and>
             (snd m = [] \<or> \<not> isWordChar (hd (snd m)))"
proof -
  from assms obtain st1 where
    wb: "atWordBoundary (p, s)"
    and a: "st1 \<in> set (matches ic (repeatN 5 Digit) (p, s))"
    and b: "m \<in> set (matches ic (uptoN 5 Digit) st1)"
    and we: "atWordBoundary m"
    by (auto simp: rePmid_def split: if_splits)
  obtain w1 where w1: "s = w1 @ snd st1" "length w1 = 5" "list_all isDigit w1"
    "fst st1 = prevChar p w1"
    using repeatN_Digit[OF a] by auto
  obtain w2 where w2: "snd st1 = w2 @ snd m" "length w2 \<le> 5" "list_all isDigit w2"
    "fst m = prevChar (fst st1) w2"
    using uptoN_Digit[OF b] by blast
  let ?w = "w1 @ w2"
  have ne: "w1 \<noteq> []" using w1(2) by auto
  have hdw: "isWordChar (hd s)" using w1 ne by (cases w1) (auto intro: isDigit_isWordChar)
  have sne: "s \<noteq> []" using w1 ne by simp
  have start: "case p of None \<Rightarrow> True | Some c \<Rightarrow> \<not> isWordChar c"
    using wb hdw sne by (cases s; cases p) auto
  have "fst m = Some (last ?w)" using w1(4) w2(4) ne by (simp add: prevChar_def)
  moreover have "isDigit (last ?w)"
    using w1(3) w2(3) ne last_in_set[of ?w] by (auto simp: list_all_iff)
  ultimately obtain d where d: "fst m = Some d" "isWordChar d"
    using isDigit_isWordChar by blast
  have stop: "snd m = [] \<or> \<not> isWordChar (hd (snd m))"
    using we d by (cases m; cases "snd m") auto
  show ?thesis
    by (rule exI[of _ ?w]) (use w1 w2 start stop in simp)
qed

lemma reFindFrom_rePmid_sound:
  "reFindFrom ic rePmid p s = Some w \<Longrightarrow>
     \<exists>pre post. s = pre @ w @ post \<and> 5 \<le> length w \<and> length w \<le> 10 \<and> list_all isDigit w \<and>
       (case prevChar p pre of None \<Rightarrow> True | Some c \<Rightarrow> \<not> isWordChar c) \<and>
       (post = [] \<or> \<not> isWordChar (hd post))"
proof (induction s arbitrary: p)
  case Nil
  then obtain m where m: "m \<in> set (matches ic rePmid (p, []))"
    by (auto split: list.splits)
  from rePmid_consumes[OF m] show ?case by auto
next
  case (Cons x xs)
  show ?case
  proof (cases "matches ic rePmid (p, x # xs)")
    case Nil
    then have "reFindFrom ic rePmid (Some x) xs = Some w" using Cons.prems by simp
    from Cons.IH[OF this] obtain pre post where
      h: "xs = pre @ w @ post" "5 \<le> length w" "length w \<le> 10" "list_all isDigit w"
         "case prevChar (Some x) pre of None \<Rightarrow> True | Some c \<Rightarrow> \<not> isWordChar c"
         "post = [] \<or> \<not> isWordChar (hd post)"
      by blast
    have "prevChar p (x # pre) = prevChar (Some x) pre" by (simp add: prevChar_def)
    then show ?thesis
      using h by (intro exI[of _ "x # pre"] exI[of _ post]) simp
  next
    case (Cons m ms)
    then have w: "w = take (length (x # xs) - length (snd m)) (x # xs)"
      using Cons.prems by simp
    have "m \<in> set (matches ic rePmid (p, x # xs))" using Cons by simp
    from rePmid_consumes[OF this] obtain v where
      v: "x # xs = v @ snd m" "5 \<le> length v" "length v \<le> 10" "list_all isDigit v"
         "case p of None \<Rightarrow> True | Some c \<Rightarrow> \<not> isWordChar c"
         "snd m = [] \<or> \<not> isWordChar (hd (snd m))"
      by blast
    have "w = v" using w v(1) by (metis add_diff_cancel_right' append_eq_conv_conj length_append)
    then show ?thesis
      using v by (intro exI[of _ "[]"] exI[of _ "snd m"]) (simp add: prevChar_def)
  qed
qed

lemma reFindFrom_None:
  "reFindFrom ic r p (pre @ s) = None \<Longrightarrow> matches ic r (prevChar p pre, s) = []"
proof (induction pre arbitrary: p)
  case Nil
  then show ?case by (cases s) (auto simp: prevChar_def split: list.splits)
next
  case (Cons x pre)
  then have "reFindFrom ic r (Some x) (pre @ s) = None"
    by (auto split: list.splits)
  then have "matches ic r (prevChar (Some x) pre, s) = []" by (rule Cons.IH)
  moreover have "prevChar p (x # pre) = prevChar (Some x) pre" by (simp add: prevChar_def)
  ultimately show ?case by simp
qed

lemma digits_repeatN:
  "list_all isDigit u \<Longrightarrow>
     matches ic (repeatN (length u) Digit) (q, u @ rest) = [(prevChar q u, rest)]"
  by (induction u arbitrary: q) (auto simp: prevChar_def)

lemma digits_uptoN:
  "list_all isDigit u \<Longrightarrow> length u \<le> n \<Longrightarrow>
     (prevChar q u, rest) \<in> set (matches ic (uptoN n Digit) (q, u @ rest))"
proof (induction n arbitrary: u q)
  case 0
  then show ?case by (simp add: prevChar_def)
next
  case (Suc n)
  show ?case
  proof (cases u)
    case Nil
    then show ?thesis by (simp add: prevChar_def)
  next
    case (Cons x u')
    then have "(prevChar (Some x) u', rest) \<in> set (matches ic (uptoN n Digit) (Some x, u' @ rest))"
      using Suc.prems by (intro Suc.IH) auto
    moreover have "prevChar q u = prevChar (Some x) u'" using Cons by (simp add: prevChar_def)
    ultimately show ?thesis using Cons Suc.prems by simp
  qed
qed

lemma rePmid_complete:
  assumes "5 \<le> length w" "length w \<le> 10" "list_all isDigit w"
    and "case q of None \<Rightarrow> True | Some c \<Rightarrow> \<not> isWordChar c"
    and "post = [] \<or> \<not> isWordChar (hd post)"
  shows "matches ic rePmid (q, w @ post) \<noteq> []"
proof -
  let ?w1 = "take 5 w" and ?w2 = "drop 5 w"
  have w: "w = ?w1 @ ?w2" by simp
  have l1: "length ?w1 = 5" using assms(1) by simp
  have d1: "list_all isDigit ?w1" and d2: "list_all isDigit ?w2"
    using assms(3) by (auto simp: list_all_iff dest: in_set_takeD in_set_dropD)
  have ne: "w \<noteq> []" using assms(1) by auto
  have "isDigit (hd w)" using ne assms(3) by (cases w) auto
  then have hw: "isWordChar (hd (w @ post))" using ne by (simp add: isDigit_isWordChar)
  have wb: "atWordBoundary (q, w @ post)"
    using assms(4) hw ne by (cases q; cases "w @ post") auto
  let ?st1 = "(prevChar q ?w1, ?w2 @ post)"
  have w': "w @ post = ?w1 @ ?w2 @ post" by simp
  have r1: "matches ic (repeatN 5 Digit) (q, w @ post) = [?st1]"
    using digits_repeatN[OF d1, of ic q "?w2 @ post"] l1 by (simp only: w' [symmetric])
  let ?st2 = "(prevChar (prevChar q ?w1) ?w2, post)"
  have r2: "?st2 \<in> set (matches ic (uptoN 5 Digit) ?st1)"
    using assms(2) by (intro digits_uptoN[OF d2]) simp
  have "?w1 \<noteq> []" using l1 by auto
  then have "prevChar (prevChar q ?w1) ?w2 = Some (last w)"
    by (simp add: prevChar_def)
  moreover have "isDigit (last w)" using ne assms(3) last_in_set[of w] by (auto simp: list_all_iff)
  ultimately have we: "atWordBoundary ?st2"
    using assms(5) by (cases post) (auto simp: isDigit_isWordChar)
  have "?st2 \<in> set (matches ic rePmid (q, w @ post))"
    using wb r1 r2 we by (auto simp: rePmid_def)
  then show ?thesis by auto
qed

lemma reFind_rePmid_iff:
  "(reFind False rePmid t \<noteq> None) =
     (\<exists>pre w post. t = pre @ w @ post \<and> isPmidOccurrence pre w post)"
proof
  assume "reFind False rePmid t \<noteq> None"
  then obtain w where "reFindFrom False rePmid None t = Some w"
    by (auto simp: reFind_def)
  from reFindFrom_rePmid_sound[OF this] obtain pre post where
    h: "t = pre @ w @ post" "5 \<le> length w" "length w \<le> 10" "list_all isDigit w"
       "case prevChar None pre of None \<Rightarrow> True | Some c \<Rightarrow> \<not> isWordChar c"
       "post = [] \<or> \<not> isWordChar (hd post)"
    by blast
  have "pre = [] \<or> \<not> isWordChar (last pre)" using h(5) by (auto simp: prevChar_def)
  then show "\<exists>pre w post. t = pre @ w @ post \<and> isPmidOccurrence pre w post"
    using h unfolding isPmidOccurrence_def by blast
next
  assume "\<exists>pre w post. t = pre @ w @ post \<and> isPmidOccurrence pre w post"
  then obtain pre w post where t: "t = pre @ w @ post" and o: "isPmidOccurrence pre w post"
    by blast
  have q: "case prevChar None pre of None \<Rightarrow> True | Some c \<Rightarrow> \<not> isWordChar c"
    using o by (auto simp: isPmidOccurrence_def prevChar_def)
  have "matches False rePmid (prevChar None pre, w @ post) \<noteq> []"
    using o q by (intro rePmid_complete) (auto simp: isPmidOccurrence_def)
  then show "reFind False rePmid t \<noteq> None"
    using reFindFrom_None[of False rePmid None pre "w @ post"] t by (auto simp: reFind_def)
qed

lemma reFind_rePmid:
  "reFind False rePmid t = Some pmid \<Longrightarrow>
     \<exists>pre post. t = pre @ pmid @ post \<and> isPmidOccurrence pre pmid post"
proof -
  assume "reFind False rePmid t = Some pmid"
  then have "reFindFrom False rePmid None t = Some pmid" by (simp add: reFind_def)
  from reFindFrom_rePmid_sound[OF this] obtain pre post where
    h: "t = pre @ pmid @ post" "5 \<le> length pmid" "length pmid \<le> 10" "list_all isDigit pmid"
       "case prevChar None pre of None \<Rightarrow> True | Some c \<Rightarrow> \<not> isWordChar c"
       "post = [] \<or> \<not> isWordChar (hd post)"
    by blast
  have "pre = [] \<or> \<not> isWordChar (last pre)" using h(5) by (auto simp: prevChar_def)
  then show ?thesis using h unfolding isPmidOccurrence_def by blast
qed

lemma summarize_example_eval:
  "\<not> isSearchIntent ''/summarize 33445566''"
  "isSummarizeIntent ''/summarize 33445566''"
  "reFind False rePmid ''/summarize 33445566'' = Some ''33445566''"
  "trim (replaceAll False reAtMention [] ''@medbot /summarize 33445566'') = ''/summarize 33445566''"
  by code_simp+

text \<open>
  The no-break space is white space for the router too: it separates "summarize" from the
  number, and it is trimmed from the ends of the mention text.
\<close>

lemma routing_no_break_space:
  "routeMention \<lparr> mention_id = ''t1'', mention_text = ''summarize'' @ [CHR 0xA0] @ ''12345678'',
                  mention_author_id = ''u1'', mention_username = ''ann'' \<rparr>
     = HandleSummarize
         \<lparr> mention_id = ''t1'', mention_text = ''summarize'' @ [CHR 0xA0] @ ''12345678'',
           mention_author_id = ''u1'', mention_username = ''ann'' \<rparr>
         ''12345678''"
  "mention_text (makeMention \<lparr> tweet_id = ''t1'',
       tweet_text = [CHR 0xA0] @ ''@medbot hello'' @ [CHR 0xA0], tweet_author_id = ''u1'' \<rparr> None)
     = ''hello''"
  by code_simp+

text \<open>
  C8.  Classification takes the first test that holds, in the order search, summarize,
  question, greeting, generic.  A mention that is not a search request and whose text starts
  with the summarize command or holds "summarize" followed by a number is handled so: when
  the text holds a run of 5 to 10 digits between word boundaries, such a run is taken from
  the text and the summarize handler is called with it; when the text holds no such run,
  the reply that asks for a valid id is sent and the handler is not called.  The mention
  text is the tweet text with the @-mentions removed, trimmed.
\<close>

theorem mention_routing:
  "(isSearchIntent (mention_text m) \<longrightarrow>
      routeMention m =
        HandleSearch m (trim (replaceFirst True reSearchCommand [] (mention_text m)))) \<and>
   (\<not> isSearchIntent (mention_text m) \<and> isSummarizeIntent (mention_text m) \<longrightarrow>
      (case reFind False rePmid (mention_text m) of
         Some pmid \<Rightarrow>
           routeMention m = HandleSummarize m pmid \<and>
           (\<exists>pre post. mention_text m = pre @ pmid @ post \<and> isPmidOccurrence pre pmid post)
       | None \<Rightarrow>
           routeMention m = ReplyNeedValidId m \<and>
           \<not> (\<exists>pre w post. mention_text m = pre @ w @ post \<and> isPmidOccurrence pre w post))) \<and>
   (\<not> isSearchIntent (mention_text m) \<and> \<not> isSummarizeIntent (mention_text m) \<and>
    isQuestionIntent (mention_text m) \<longrightarrow> routeMention m = HandleQuestion m) \<and>
   (\<not> isSearchIntent (mention_text m) \<and> \<not> isSummarizeIntent (mention_text m) \<and>
    \<not> isQuestionIntent (mention_text m) \<and> isGreeting (toLowerCase (mention_text m)) \<longrightarrow>
      routeMention m = HandleGreeting m) \<and>
   (\<not> isSearchIntent (mention_text m) \<and> \<not> isSummarizeIntent (mention_text m) \<and>
    \<not> isQuestionIntent (mention_text m) \<and> \<not> isGreeting (toLowerCase (mention_text m)) \<longrightarrow>
      routeMention m = HandleGeneric m) \<and>
   handleTwitterMention (Some \<lparr> tweet_data = Some tweet, includes_users = users \<rparr>)
     = routeMention (makeMention tweet users) \<and>
   mention_text (makeMention tweet users)
     = trim (replaceAll False reAtMention [] (tweet_text tweet))"
proof -
  have "\<not> isSearchIntent (mention_text m) \<and> isSummarizeIntent (mention_text m) \<longrightarrow>
      (case reFind False rePmid (mention_text m) of
         Some pmid \<Rightarrow>
           routeMention m = HandleSummarize m pmid \<and>
           (\<exists>pre post. mention_text m = pre @ pmid @ post \<and> isPmidOccurrence pre pmid post)
       | None \<Rightarrow>
           routeMention m = ReplyNeedValidId m \<and>
           \<not> (\<exists>pre w post. mention_text m = pre @ w @ post \<and> isPmidOccurrence pre w post))"
  proof (cases "reFind False rePmid (mention_text m)")
    case None
    then show ?thesis
      using reFind_rePmid_iff[of "mention_text m"] by (simp add: routeMention_def)
  next
    case (Some pmid)
    then show ?thesis
      using reFind_rePmid[of "mention_text m" pmid] by (simp add: routeMention_def)
  qed
  then show ?thesis
    by (simp add: routeMention_def handleTwitterMention_def makeMention_def)
qed

text \<open>
  Witness for C8: the mention "/summarize 33445566" is no search request, is a summarize
  request, holds the id 33445566, and is routed to the summarize handler with that id.
\<close>

theorem mention_routing_witness:
  "\<not> isSearchIntent ''/summarize 33445566'' \<and>
   isSummarizeIntent ''/summarize 33445566'' \<and>
   reFind False rePmid ''/summarize 33445566'' = Some ''33445566'' \<and>
   handleTwitterMention
     (Some \<lparr> tweet_data = Some \<lparr> tweet_id = ''t1'', tweet_text = ''@medbot /summarize 33445566'',
                                 tweet_author_id = ''u1'' \<rparr>,
             includes_users = Some [(''u1'', ''ann'')] \<rparr>)
   = HandleSummarize
       \<lparr> mention_id = ''t1'', mention_text = ''/summarize 33445566'', mention_author_id = ''u1'',
         mention_username = ''ann'' \<rparr>
       ''33445566''"
proof -
  let ?tw = "\<lparr> tweet_id = ''t1'', tweet_text = ''@medbot /summarize 33445566'',
              tweet_author_id = ''u1'' \<rparr>"
  let ?m = "makeMention ?tw (Some [(''u1'', ''ann'')])"
  have m: "?m = \<lparr> mention_id = ''t1'', mention_text = ''/summarize 33445566'',
                  mention_author_id = ''u1'', mention_username = ''ann'' \<rparr>"
    by (simp add: makeMention_def summarize_example_eval)
  have "routeMention ?m = HandleSummarize ?m ''33445566''"
    using mention_routing[of ?m ?tw "Some [(''u1'', ''ann'')]"]
    by (simp add: m summarize_example_eval)
  moreover have "handleTwitterMention (Some \<lparr> tweet_data = Some ?tw,
                   includes_users = Some [(''u1'', ''ann'')] \<rparr>) = routeMention ?m"
    using mention_routing[of ?m ?tw "Some [(''u1'', ''ann'')]"] by simp
  ultimately show ?thesis
    by (simp add: m summarize_example_eval)
qed

section \<open>Verification: text simplification\<close>



































text \<open>
  The no-break space is white space: alone it is trimmed away, and between two words it
  becomes a space.
\<close>

lemma simplifyText_no_break_space:
  "simplifyText [CHR 0xA0] = ''.''"
  "simplifyText [CHR ''a'', CHR 0xA0, CHR ''b''] = ''a b.''"
  by code_simp+




end
